theory Spec2Isabelle
  imports Main
begin

section \<open>Go errors\<close>

text \<open>
  A Go error value is modelled by its message and the list of errors it wraps:
  \<^verbatim>\<open>errors.New(msg)\<close> wraps nothing, \<^verbatim>\<open>fmt.Errorf\<close> wraps the operands of its
  \<^verbatim>\<open>%w\<close> verbs. Sentinel errors are told apart by their messages.
\<close>

datatype goerr = GoErr string "goerr list"

fun Error :: "goerr \<Rightarrow> string" where
  "Error (GoErr msg ws) = msg"

fun Unwrap :: "goerr \<Rightarrow> goerr list" where
  "Unwrap (GoErr msg ws) = ws"

definition errors_New :: "string \<Rightarrow> goerr" where
  "errors_New msg = GoErr msg []"

text \<open>\<^verbatim>\<open>errors.Is(err, target)\<close>: the error itself or anything it wraps, at any depth.\<close>

fun errors_Is :: "goerr \<Rightarrow> goerr \<Rightarrow> bool" where
  "errors_Is (GoErr msg ws) target =
     (GoErr msg ws = target \<or> (\<exists>w \<in> set ws. errors_Is w target))"

text \<open>The verb \<^verbatim>\<open>%d\<close> of a non-negative integer; \<open>digit_char\<close> is used below 10 only.\<close>

definition digit_char :: "nat \<Rightarrow> char" where
  "digit_char d = ''0123456789'' ! d"

function itoa :: "nat \<Rightarrow> string" where
  "itoa n = (if n < 10 then [digit_char n] else itoa (n div 10) @ [digit_char (n mod 10)])"
  by pat_completeness auto
termination
  by (relation "measure id") auto

section \<open>Domain: errors, entities, interfaces\<close>

definition ErrRepositoryNotFound :: goerr where
  "ErrRepositoryNotFound = errors_New ''git repository not found at specified path''"

definition ErrNoRemoteOrigin :: goerr where
  "ErrNoRemoteOrigin =
     errors_New ''no 'origin' remote configured; cannot determine repository name''"

definition ErrInvalidRemoteURL :: goerr where
  "ErrInvalidRemoteURL = errors_New ''could not parse repository name from remote URL''"

definition ErrNoAncestorSlip :: goerr where
  "ErrNoAncestorSlip = errors_New ''no slip found in commit ancestry''"

definition ErrEmptyAncestry :: goerr where
  "ErrEmptyAncestry = errors_New ''commit ancestry is empty''"

definition DefaultAncestryDepth :: int where
  "DefaultAncestryDepth = 25"

record GitContext =
  HeadSHA :: string
  Branch :: string
  Repository :: string
  IsDetached :: bool

record ResolveInput =
  Depth :: int

record ResolveOutput =
  out_CorrelationID :: string
  out_MatchedCommit :: string
  out_Repository :: string
  out_Branch :: string
  out_ResolvedBy :: string

record Slip =
  CorrelationID :: string

text \<open>
  A \<^verbatim>\<open>context.Context\<close> as the ancestry walk sees it: the walk polls \<^verbatim>\<open>ctx.Done()\<close>
  once per visited commit, so a context is the number of the first poll (from 0) that
  finds it done, if any, and which of its two errors \<^verbatim>\<open>ctx.Err()\<close> reports from then
  on.
\<close>

datatype ctx_cause = Canceled | DeadlineExceeded

record Context =
  done_from :: "nat option"
  cause :: ctx_cause

definition context_Canceled :: goerr where
  "context_Canceled = errors_New ''context canceled''"

definition context_DeadlineExceeded :: goerr where
  "context_DeadlineExceeded = errors_New ''context deadline exceeded''"

definition ctx_Err :: "Context \<Rightarrow> goerr" where
  "ctx_Err ctx = (case cause ctx of Canceled \<Rightarrow> context_Canceled
                                  | DeadlineExceeded \<Rightarrow> context_DeadlineExceeded)"

definition context_Background :: Context where
  "context_Background = \<lparr>done_from = None, cause = Canceled\<rparr>"


definition ctx_Done :: "Context \<Rightarrow> nat \<Rightarrow> bool" where
  "ctx_Done ctx poll = (case done_from ctx of None \<Rightarrow> False | Some k \<Rightarrow> k \<le> poll)"

text \<open>
  The interfaces \<^verbatim>\<open>LocalGitRepository\<close> and \<^verbatim>\<open>SlipFinder\<close>, as records of their methods.
  A Go result \<^verbatim>\<open>(value, error)\<close> is a sum, \<open>Inl\<close> the error; \<^verbatim>\<open>FindByCommits\<close> keeps
  its three results, since a nil slip with a nil error is its "no match".
\<close>

record LocalGitRepository =
  repo_GetGitContext :: "Context \<Rightarrow> goerr + GitContext"
  repo_GetCommitAncestry :: "Context \<Rightarrow> int \<Rightarrow> goerr + string list"

record SlipFinder =
  FindByCommits :: "Context \<Rightarrow> string \<Rightarrow> string list \<Rightarrow> Slip option \<times> string \<times> goerr option"

section \<open>Use case: SlipResolver.Resolve\<close>

text \<open>
  The result is \<open>None\<close> where the Go code panics: \<^verbatim>\<open>commits[0]\<close> in the debug log call
  is an index out of range when the repository returned no commit and no error.
  Logging has no other effect on the result and is left out.
\<close>

definition Resolve ::
  "LocalGitRepository \<Rightarrow> SlipFinder \<Rightarrow> Context \<Rightarrow> ResolveInput \<Rightarrow> (goerr + ResolveOutput) option"
where
  "Resolve gitRepo finder ctx input =
     (let depth = (if Depth input \<le> 0 then DefaultAncestryDepth else Depth input) in
      case repo_GetGitContext gitRepo ctx of
        Inl err \<Rightarrow> Some (Inl (GoErr (''failed to get git context: '' @ Error err) [err]))
      | Inr gitCtx \<Rightarrow>
          (case repo_GetCommitAncestry gitRepo ctx depth of
             Inl err \<Rightarrow> Some (Inl (GoErr (''failed to get commit ancestry: '' @ Error err) [err]))
           | Inr commits \<Rightarrow>
               (case commits of
                  [] \<Rightarrow> None
                | head # _ \<Rightarrow>
                    (case FindByCommits finder ctx (Repository gitCtx) commits of
                       (_, _, Some err) \<Rightarrow>
                         Some (Inl (GoErr (''failed to find slip by commits: '' @ Error err) [err]))
                     | (None, _, None) \<Rightarrow>
                         Some (Inl (GoErr (Error ErrNoAncestorSlip @ '': searched ''
                                             @ itoa (length commits) @ '' commits from ''
                                             @ HeadSHA gitCtx)
                                          [ErrNoAncestorSlip]))
                     | (Some foundSlip, matchedCommit, None) \<Rightarrow>
                         Some (Inr \<lparr>out_CorrelationID = CorrelationID foundSlip,
                                    out_MatchedCommit = matchedCommit,
                                    out_Repository = Repository gitCtx,
                                    out_Branch = Branch gitCtx,
                                    out_ResolvedBy = ''ancestry''\<rparr>)))))"

section \<open>Infrastructure: configuration loading\<close>

definition EnvPipelineConfig :: string where
  "EnvPipelineConfig = ''SLIPPY_PIPELINE_CONFIG''"

definition EnvVaultPipelineConfigPath :: string where
  "EnvVaultPipelineConfigPath = ''VAULT_PIPELINE_CONFIG_PATH''"

definition EnvVaultPipelineConfigMount :: string where
  "EnvVaultPipelineConfigMount = ''VAULT_PIPELINE_CONFIG_MOUNT''"

definition DefaultVaultPipelineMount :: string where
  "DefaultVaultPipelineMount = ''secret''"

definition ErrPipelineConfigRequired :: goerr where
  "ErrPipelineConfigRequired = errors_New
     (''pipeline configuration required: set VAULT_PIPELINE_CONFIG_PATH (with VAULT_ADDRESS, VAULT_ROLE_ID, VAULT_SECRET_ID) ''
      @ ''or SLIPPY_PIPELINE_CONFIG for local file'')"

definition ErrPipelineConfigNotFound :: goerr where
  "ErrPipelineConfigNotFound = errors_New ''pipeline configuration file not found''"

definition ErrPipelineConfigInvalid :: goerr where
  "ErrPipelineConfigInvalid = errors_New ''pipeline configuration is not valid JSON''"

definition ErrVaultClientFailed :: goerr where
  "ErrVaultClientFailed = errors_New ''failed to create Vault client''"

definition ErrVaultSecretNotFound :: goerr where
  "ErrVaultSecretNotFound = errors_New ''pipeline configuration not found in Vault''"

text \<open>
  A value of a secret, of Go type \<^verbatim>\<open>interface{}\<close>: the code only asks whether it is a
  string (\<^verbatim>\<open>.(string)\<close>); every other dynamic value is kept as it is.
\<close>

datatype 'v secret_value = VString string | VOther 'v

type_synonym 'v secret_data = "string \<rightharpoonup> 'v secret_value"

text \<open>The interface \<^verbatim>\<open>VaultClient\<close> and its factory (a nil factory is \<open>None\<close>).\<close>

record 'v VaultClient =
  GetKVSecret :: "string \<Rightarrow> string \<Rightarrow> goerr + 'v secret_data"

type_synonym 'v VaultClientFactory = "goerr + 'v VaultClient"

text \<open>The result of \<^verbatim>\<open>os.ReadFile\<close>, a failure with what \<^verbatim>\<open>os.IsNotExist\<close> says of it.\<close>

datatype read_result = ReadOk string | ReadNotExist goerr | ReadFailed goerr

text \<open>
  What the package takes from outside: the process environment, the file system, the
  production Vault client (goLibMyCarrier/vault), and \<^verbatim>\<open>encoding/json\<close> on the external
  type \<^verbatim>\<open>slippy.PipelineConfig\<close> (\<open>'cfg\<close>), whose decoding that library defines.
\<close>

record ('v, 'cfg) world =
  env :: "string \<rightharpoonup> string"
  os_ReadFile :: "string \<Rightarrow> read_result"
  DefaultVaultClientFactory :: "'v VaultClientFactory"
  json_Unmarshal :: "string \<Rightarrow> goerr + 'cfg"
  json_Marshal :: "'v secret_data \<Rightarrow> goerr + string"

text \<open>\<^verbatim>\<open>os.Getenv\<close>: the empty string for a variable that is not set.\<close>

definition os_Getenv :: "('v, 'cfg) world \<Rightarrow> string \<Rightarrow> string" where
  "os_Getenv w name = (case env w name of None \<Rightarrow> [] | Some v \<Rightarrow> v)"

definition parsePipelineConfigFromVault ::
  "('v, 'cfg) world \<Rightarrow> 'v secret_data \<Rightarrow> goerr + 'cfg"
where
  "parsePipelineConfigFromVault w secretData =
     (case secretData ''config'' of
        Some (VString configStr) \<Rightarrow>
          (case json_Unmarshal w configStr of
             Inl err \<Rightarrow> Inl (GoErr (Error ErrPipelineConfigInvalid @ '': '' @ Error err)
                                   [ErrPipelineConfigInvalid, err])
           | Inr config \<Rightarrow> Inr config)
      | _ \<Rightarrow>
          (case json_Marshal w secretData of
             Inl err \<Rightarrow> Inl (GoErr (Error ErrPipelineConfigInvalid
                                      @ '': failed to marshal secret data: '' @ Error err)
                                   [ErrPipelineConfigInvalid, err])
           | Inr jsonData \<Rightarrow>
               (case json_Unmarshal w jsonData of
                  Inl err \<Rightarrow> Inl (GoErr (Error ErrPipelineConfigInvalid @ '': '' @ Error err)
                                        [ErrPipelineConfigInvalid, err])
                | Inr config \<Rightarrow> Inr config)))"

definition loadPipelineConfigFromVault ::
  "('v, 'cfg) world \<Rightarrow> 'v VaultClientFactory option \<Rightarrow> string \<Rightarrow> goerr + 'cfg"
where
  "loadPipelineConfigFromVault w vaultClientFactory path =
     (let factory = (case vaultClientFactory of
                       None \<Rightarrow> DefaultVaultClientFactory w
                     | Some f \<Rightarrow> f) in
      case factory of
        Inl err \<Rightarrow> Inl err
      | Inr client \<Rightarrow>
          (let mount = (if os_Getenv w EnvVaultPipelineConfigMount = []
                        then DefaultVaultPipelineMount
                        else os_Getenv w EnvVaultPipelineConfigMount) in
           case GetKVSecret client path mount of
             Inl err \<Rightarrow> Inl (GoErr (Error ErrVaultSecretNotFound @ '' at path '' @ path
                                      @ '': '' @ Error err)
                                   [ErrVaultSecretNotFound, err])
           | Inr secretData \<Rightarrow> parsePipelineConfigFromVault w secretData))"

definition loadPipelineConfigFromFile :: "('v, 'cfg) world \<Rightarrow> string \<Rightarrow> goerr + 'cfg" where
  "loadPipelineConfigFromFile w path =
     (case os_ReadFile w path of
        ReadNotExist err \<Rightarrow>
          Inl (GoErr (Error ErrPipelineConfigNotFound @ '': '' @ path) [ErrPipelineConfigNotFound])
      | ReadFailed err \<Rightarrow>
          Inl (GoErr (''failed to read pipeline config: '' @ Error err) [err])
      | ReadOk data \<Rightarrow>
          (case json_Unmarshal w data of
             Inl err \<Rightarrow> Inl (GoErr (Error ErrPipelineConfigInvalid @ '': '' @ Error err)
                                   [ErrPipelineConfigInvalid, err])
           | Inr config \<Rightarrow> Inr config))"

definition loadPipelineConfigWithVault ::
  "('v, 'cfg) world \<Rightarrow> 'v VaultClientFactory option \<Rightarrow> goerr + 'cfg"
where
  "loadPipelineConfigWithVault w vaultClientFactory =
     (let vaultPath = os_Getenv w EnvVaultPipelineConfigPath in
      if vaultPath \<noteq> [] then loadPipelineConfigFromVault w vaultClientFactory vaultPath
      else
        (let pipelineConfigPath = os_Getenv w EnvPipelineConfig in
         if pipelineConfigPath = [] then Inl ErrPipelineConfigRequired
         else loadPipelineConfigFromFile w pipelineConfigPath))"

text \<open>
  Modelled from the spec: the function \<^verbatim>\<open>parseVaultPath\<close> and the constant
  \<^verbatim>\<open>DefaultSecretKey\<close>, which \<^verbatim>\<open>TestParseVaultPath\<close> exercises and the package does
  not define. The secret locator is the configuration string split at its last
  \<^verbatim>\<open>#\<close> into base path and key; without a \<^verbatim>\<open>#\<close> the key is \<^verbatim>\<open>config\<close>.
\<close>

definition DefaultSecretKey :: string where
  "DefaultSecretKey = ''config''"

definition spec_parseLocator :: "string \<Rightarrow> string \<times> string" where
  "spec_parseLocator fullPath =
     (if CHR ''#'' \<in> set fullPath
      then (rev (tl (dropWhile (\<lambda>c. c \<noteq> CHR ''#'') (rev fullPath))),
            rev (takeWhile (\<lambda>c. c \<noteq> CHR ''#'') (rev fullPath)))
      else (fullPath, DefaultSecretKey))"

section \<open>Adapter: the local Git repository\<close>

subsection \<open>Strings\<close>

text \<open>
  Go strings are byte strings holding UTF-8. \<^verbatim>\<open>strings.TrimSpace\<close> removes the leading
  and trailing runes that \<^verbatim>\<open>unicode.IsSpace\<close> accepts; these are their encodings
  (tab, LF, VT, FF, CR, space, U+0085, U+00A0, U+1680, U+2000 to U+200A, U+2028,
  U+2029, U+202F, U+205F, U+3000). A byte that does not decode is no space.
\<close>

definition space_encodings :: "string list" where
  "space_encodings =
     [[CHR 0x09], [CHR 0x0A], [CHR 0x0B], [CHR 0x0C], [CHR 0x0D], [CHR 0x20],
      [CHR 0xC2, CHR 0x85], [CHR 0xC2, CHR 0xA0],
      [CHR 0xE1, CHR 0x9A, CHR 0x80],
      [CHR 0xE2, CHR 0x80, CHR 0x80], [CHR 0xE2, CHR 0x80, CHR 0x81],
      [CHR 0xE2, CHR 0x80, CHR 0x82], [CHR 0xE2, CHR 0x80, CHR 0x83],
      [CHR 0xE2, CHR 0x80, CHR 0x84], [CHR 0xE2, CHR 0x80, CHR 0x85],
      [CHR 0xE2, CHR 0x80, CHR 0x86], [CHR 0xE2, CHR 0x80, CHR 0x87],
      [CHR 0xE2, CHR 0x80, CHR 0x88], [CHR 0xE2, CHR 0x80, CHR 0x89],
      [CHR 0xE2, CHR 0x80, CHR 0x8A],
      [CHR 0xE2, CHR 0x80, CHR 0xA8], [CHR 0xE2, CHR 0x80, CHR 0xA9],
      [CHR 0xE2, CHR 0x80, CHR 0xAF], [CHR 0xE2, CHR 0x81, CHR 0x9F],
      [CHR 0xE3, CHR 0x80, CHR 0x80]]"

definition HasPrefix :: "string \<Rightarrow> string \<Rightarrow> bool" where
  "HasPrefix s pre = (take (length pre) s = pre)"

definition HasSuffix :: "string \<Rightarrow> string \<Rightarrow> bool" where
  "HasSuffix s suf = (length suf \<le> length s \<and> drop (length s - length suf) s = suf)"

text \<open>The width in bytes of the white-space rune a string starts or ends with, 0 for none.\<close>

definition leading_space :: "string \<Rightarrow> nat" where
  "leading_space s = (case filter (HasPrefix s) space_encodings of [] \<Rightarrow> 0 | e # _ \<Rightarrow> length e)"

definition trailing_space :: "string \<Rightarrow> nat" where
  "trailing_space s = (case filter (HasSuffix s) space_encodings of [] \<Rightarrow> 0 | e # _ \<Rightarrow> length e)"

function TrimLeftSpace :: "string \<Rightarrow> string" where
  "TrimLeftSpace s =
     (if leading_space s = 0 \<or> s = [] then s else TrimLeftSpace (drop (leading_space s) s))"
  by pat_completeness auto
termination
  by (relation "measure length") auto

function TrimRightSpace :: "string \<Rightarrow> string" where
  "TrimRightSpace s =
     (if trailing_space s = 0 \<or> s = [] then s
      else TrimRightSpace (take (length s - trailing_space s) s))"
  by pat_completeness auto
termination
  by (relation "measure length") auto

definition TrimSpace :: "string \<Rightarrow> string" where
  "TrimSpace s = TrimRightSpace (TrimLeftSpace s)"

subsection \<open>Remote URLs\<close>

text \<open>Cut a string at the first occurrence of a byte.\<close>

definition split_at :: "char \<Rightarrow> string \<Rightarrow> (string \<times> string) option" where
  "split_at c s =
     (if c \<in> set s then Some (takeWhile (\<lambda>x. x \<noteq> c) s, tl (dropWhile (\<lambda>x. x \<noteq> c) s))
      else None)"

text \<open>
  The end of both patterns, \<^verbatim>\<open>([^/]+?)(?:\.git)?$\<close>, on a last segment: the lazy group
  takes the shortest non-empty prefix that leaves nothing or \<^verbatim>\<open>.git\<close>.
\<close>

definition strip_git :: "string \<Rightarrow> string" where
  "strip_git seg =
     (if 4 < length seg \<and> HasSuffix seg ''.git'' then take (length seg - 4) seg else seg)"

text \<open>The common part \<^verbatim>\<open>([^/]+)/([^/]+?)(?:\.git)?$\<close>, giving the two groups.\<close>

definition match_owner_name :: "string \<Rightarrow> (string \<times> string) option" where
  "match_owner_name s =
     (case split_at CHR ''/'' s of
        None \<Rightarrow> None
      | Some (owner, seg) \<Rightarrow>
          if owner = [] \<or> seg = [] \<or> CHR ''/'' \<in> set seg then None
          else Some (owner, strip_git seg))"

text \<open>
  \<^verbatim>\<open>httpsURLPattern = ^https?://[^/]+/([^/]+)/([^/]+?)(?:\.git)?$\<close> and
  \<^verbatim>\<open>sshURLPattern = ^git@[^:]+:([^/]+)/([^/]+?)(?:\.git)?$\<close>, each as
  \<^verbatim>\<open>FindStringSubmatch\<close>: \<open>None\<close> for no match, else the groups 1 and 2.
\<close>

definition httpsURLPattern :: "string \<Rightarrow> (string \<times> string) option" where
  "httpsURLPattern url =
     (let rest = (if HasPrefix url ''https://'' then Some (drop 8 url)
                  else if HasPrefix url ''http://'' then Some (drop 7 url)
                  else None) in
      case rest of
        None \<Rightarrow> None
      | Some r \<Rightarrow>
          (case split_at CHR ''/'' r of
             None \<Rightarrow> None
           | Some (host, r') \<Rightarrow> if host = [] then None else match_owner_name r'))"

definition sshURLPattern :: "string \<Rightarrow> (string \<times> string) option" where
  "sshURLPattern url =
     (if HasPrefix url ''git@'' then
        (case split_at CHR '':'' (drop 4 url) of
           None \<Rightarrow> None
         | Some (host, r') \<Rightarrow> if host = [] then None else match_owner_name r')
      else None)"

definition parseRepoFromURL :: "string \<Rightarrow> goerr + string" where
  "parseRepoFromURL url0 =
     (let url = TrimSpace url0 in
      case httpsURLPattern url of
        Some (owner, name) \<Rightarrow> Inr (owner @ ''/'' @ name)
      | None \<Rightarrow>
          (case sshURLPattern url of
             Some (owner, name) \<Rightarrow> Inr (owner @ ''/'' @ name)
           | None \<Rightarrow> Inl (GoErr (''unrecognized URL format: '' @ url) [])))"

subsection \<open>The go-git repository\<close>

text \<open>
  What the adapter reads of a \<^verbatim>\<open>*git.Repository\<close>: the HEAD reference, the commit
  objects by hash (a missing object is \<^verbatim>\<open>plumbing.ErrObjectNotFound\<close>), and the
  remote named origin with its configured URLs. A hash is its hexadecimal string, a
  committer time a number.
\<close>

record Commit =
  Hash :: string
  ParentHashes :: "string list"
  When :: nat

record Reference =
  ref_Hash :: string
  ref_Name :: string

record git_Repository =
  Head :: "goerr + Reference"
  objects :: "string \<rightharpoonup> Commit"
  Remote_origin :: "goerr + string list"

definition ErrObjectNotFound :: goerr where
  "ErrObjectNotFound = errors_New ''object not found''"

definition ErrStop :: goerr where
  "ErrStop = errors_New ''stop iter''"

definition CommitObject :: "git_Repository \<Rightarrow> string \<Rightarrow> goerr + Commit" where
  "CommitObject r h = (case objects r h of None \<Rightarrow> Inl ErrObjectNotFound | Some c \<Rightarrow> Inr c)"

definition IsBranch :: "string \<Rightarrow> bool" where
  "IsBranch name = HasPrefix name ''refs/heads/''"

text \<open>\<^verbatim>\<open>ReferenceName.Short\<close>, which the adapter calls on branch names only.\<close>

definition Short :: "string \<Rightarrow> string" where
  "Short name = (if IsBranch name then drop 11 name else name)"

definition GetGitContext :: "git_Repository \<Rightarrow> Context \<Rightarrow> goerr + GitContext" where
  "GetGitContext r ctx =
     (case Head r of
        Inl err \<Rightarrow> Inl (GoErr (''failed to get HEAD: '' @ Error err) [err])
      | Inr head \<Rightarrow>
          (let gitCtx = \<lparr>HeadSHA = ref_Hash head,
                         Branch = (if IsBranch (ref_Name head) then Short (ref_Name head) else []),
                         Repository = [],
                         IsDetached = (\<not> IsBranch (ref_Name head))\<rparr> in
           case Remote_origin r of
             Inl err \<Rightarrow>
               Inl (GoErr (Error ErrNoRemoteOrigin @ '': failed to get origin remote: '' @ Error err)
                          [ErrNoRemoteOrigin, err])
           | Inr urls \<Rightarrow>
               (case urls of
                  [] \<Rightarrow> Inl (GoErr (Error ErrNoRemoteOrigin
                                      @ '': origin remote has no URLs configured'')
                                   [ErrNoRemoteOrigin])
                | url # _ \<Rightarrow>
                    (case parseRepoFromURL url of
                       Inl err \<Rightarrow>
                         Inl (GoErr (Error ErrInvalidRemoteURL @ '': failed to parse URL: ''
                                       @ Error err)
                                    [ErrInvalidRemoteURL, err])
                     | Inr repoName \<Rightarrow> Inr (gitCtx\<lparr>Repository := repoName\<rparr>)))))"

subsection \<open>The commit iterator of go-git\<close>

text \<open>
  \<^verbatim>\<open>object.NewCommitIterCTime(commit, nil, nil)\<close> is go-git's iterator in committer-time
  order. It keeps the set of hashes seen and a heap of commits ordered by committer
  time, newest on top, which starts as the given commit alone. \<^verbatim>\<open>Next\<close> pops until
  it finds a commit not seen, marks it, loads and pushes every parent of it that is
  not seen (all of \<^verbatim>\<open>ParentHashes\<close>, in order), and yields it; a parent missing from
  the object store is an error; an empty heap is the end (\<^verbatim>\<open>io.EOF\<close>).

  The heap is modelled as the list of its elements in the order they would be popped.
  Among commits of equal committer time the model pops the one pushed first; the
  library leaves that order to the layout of its binary heap.
\<close>

fun heap_Push :: "Commit \<Rightarrow> Commit list \<Rightarrow> Commit list" where
  "heap_Push c [] = [c]"
| "heap_Push c (x # xs) = (if When x < When c then c # x # xs else x # heap_Push c xs)"

fun push_parents ::
  "(string \<rightharpoonup> Commit) \<Rightarrow> string list \<Rightarrow> string list \<Rightarrow> Commit list \<Rightarrow> goerr + Commit list"
where
  "push_parents objs seen [] heap = Inr heap"
| "push_parents objs seen (h # hs) heap =
     (if h \<in> set seen then push_parents objs seen hs heap
      else (case objs h of
              None \<Rightarrow> Inl ErrObjectNotFound
            | Some pc \<Rightarrow> push_parents objs seen hs (heap_Push pc heap)))"

datatype next_result = EOF | NextErr goerr | Yield Commit "string list" "Commit list"

fun Next :: "(string \<rightharpoonup> Commit) \<Rightarrow> string list \<Rightarrow> Commit list \<Rightarrow> next_result" where
  "Next objs seen [] = EOF"
| "Next objs seen (c # heap) =
     (if Hash c \<in> set seen then Next objs seen heap
      else (case push_parents objs (Hash c # seen) (ParentHashes c) heap of
              Inl err \<Rightarrow> NextErr err
            | Inr heap' \<Rightarrow> Yield c (Hash c # seen) heap'))"

text \<open>
  \<^verbatim>\<open>iter.ForEach\<close> with the callback of \<^verbatim>\<open>GetCommitAncestry\<close>: for each commit the
  iterator yields, poll the context, stop once \<^verbatim>\<open>depth\<close> commits are collected (the
  \<^verbatim>\<open>storer.ErrStop\<close> a callback returns ends \<^verbatim>\<open>ForEach\<close> without an error), else append
  the hash. The result is the error of \<^verbatim>\<open>ForEach\<close> and the slice \<^verbatim>\<open>commits\<close>. The
  callback has run once per collected commit, so the number of the poll is the
  length of \<^verbatim>\<open>commits\<close>.
\<close>

function ForEach ::
  "(string \<rightharpoonup> Commit) \<Rightarrow> Context \<Rightarrow> int \<Rightarrow> string list \<Rightarrow> Commit list \<Rightarrow> string list
     \<Rightarrow> goerr option \<times> string list"
where
  "ForEach objs ctx depth seen heap commits =
     (case Next objs seen heap of
        EOF \<Rightarrow> (None, commits)
      | NextErr err \<Rightarrow> (Some err, commits)
      | Yield c seen' heap' \<Rightarrow>
          if ctx_Done ctx (length commits) then (Some (ctx_Err ctx), commits)
          else if int (length commits) \<ge> depth then (None, commits)
          else ForEach objs ctx depth seen' heap' (commits @ [Hash c]))"
  by pat_completeness auto
termination
  by (relation "measure (\<lambda>(objs, ctx, depth, seen, heap, commits). nat (depth - int (length commits)))")
     auto

definition GetCommitAncestry :: "git_Repository \<Rightarrow> Context \<Rightarrow> int \<Rightarrow> goerr + string list" where
  "GetCommitAncestry r ctx depth0 =
     (let depth = (if depth0 \<le> 0 then DefaultAncestryDepth else depth0) in
      case Head r of
        Inl err \<Rightarrow> Inl (GoErr (''failed to get HEAD: '' @ Error err) [err])
      | Inr head \<Rightarrow>
          (case CommitObject r (ref_Hash head) of
             Inl err \<Rightarrow>
               Inl (GoErr (''failed to get commit object for HEAD: '' @ Error err) [err])
           | Inr commit \<Rightarrow>
               (case ForEach (objects r) ctx depth [] [commit] [] of
                  (Some err, commits) \<Rightarrow>
                    if \<not> errors_Is err ErrStop
                    then Inl (GoErr (''failed to walk commit history: '' @ Error err) [err])
                    else if commits = [] then Inl ErrEmptyAncestry else Inr commits
                | (None, commits) \<Rightarrow>
                    if commits = [] then Inl ErrEmptyAncestry else Inr commits)))"

text \<open>The adapter as the \<^verbatim>\<open>LocalGitRepository\<close> the resolver is given.\<close>

definition GoGitRepository :: "git_Repository \<Rightarrow> LocalGitRepository" where
  "GoGitRepository r =
     \<lparr>repo_GetGitContext = GetGitContext r, repo_GetCommitAncestry = GetCommitAncestry r\<rparr>"

subsection \<open>First-parent lineage, in the specification's words\<close>

text \<open>
  The first parent of a commit, and the sequence the specification describes: start
  at head and follow the first parent only, until \<open>depth\<close> commits are collected or a
  commit has no parent.
\<close>

definition first_parent :: "(string \<rightharpoonup> Commit) \<Rightarrow> string \<Rightarrow> string option" where
  "first_parent objs h =
     (case objs h of
        None \<Rightarrow> None
      | Some c \<Rightarrow> (case ParentHashes c of [] \<Rightarrow> None | p # _ \<Rightarrow> Some p))"

fun follows_first_parents :: "(string \<rightharpoonup> Commit) \<Rightarrow> string list \<Rightarrow> bool" where
  "follows_first_parents objs [] = True"
| "follows_first_parents objs [h] = True"
| "follows_first_parents objs (h # h' # hs) =
     (first_parent objs h = Some h' \<and> follows_first_parents objs (h' # hs))"

fun spec_first_parent_walk :: "(string \<rightharpoonup> Commit) \<Rightarrow> nat \<Rightarrow> string \<Rightarrow> string list" where
  "spec_first_parent_walk objs 0 h = []"
| "spec_first_parent_walk objs (Suc n) h =
     h # (case first_parent objs h of None \<Rightarrow> [] | Some p \<Rightarrow> spec_first_parent_walk objs n p)"

subsection \<open>The accepted URL shapes, in the specification's words\<close>

text \<open>
  The two shapes of a remote URL, with the owner and the last path segment:
  \<^verbatim>\<open>http://\<close> or \<^verbatim>\<open>https://\<close>, a host, owner and segment separated by slashes; and
  \<^verbatim>\<open>git@\<close>, a host, a colon, owner, a slash and the segment. The repository name is
  the segment without one trailing \<^verbatim>\<open>.git\<close>, where something is left before it.
\<close>

definition https_shape :: "string \<Rightarrow> string \<Rightarrow> string \<Rightarrow> bool" where
  "https_shape url owner seg =
     (\<exists>scheme host. (scheme = ''http://'' \<or> scheme = ''https://'')
        \<and> url = scheme @ host @ ''/'' @ owner @ ''/'' @ seg
        \<and> host \<noteq> [] \<and> CHR ''/'' \<notin> set host
        \<and> owner \<noteq> [] \<and> CHR ''/'' \<notin> set owner
        \<and> seg \<noteq> [] \<and> CHR ''/'' \<notin> set seg)"

definition ssh_shape :: "string \<Rightarrow> string \<Rightarrow> string \<Rightarrow> bool" where
  "ssh_shape url owner seg =
     (\<exists>host. url = ''git@'' @ host @ '':'' @ owner @ ''/'' @ seg
        \<and> host \<noteq> [] \<and> CHR '':'' \<notin> set host
        \<and> owner \<noteq> [] \<and> CHR ''/'' \<notin> set owner
        \<and> seg \<noteq> [] \<and> CHR ''/'' \<notin> set seg)"

definition name_of_segment :: "string \<Rightarrow> string \<Rightarrow> bool" where
  "name_of_segment seg name =
     (if \<exists>x. x \<noteq> [] \<and> seg = x @ ''.git'' then seg = name @ ''.git'' else seg = name)"

section \<open>Inputs taken from the package's tests\<close>

text \<open>The mocks of \<^verbatim>\<open>resolver_test.go\<close>, case "no slip found in ancestry".\<close>

definition test_gitCtx :: GitContext where
  "test_gitCtx = \<lparr>HeadSHA = ''abc123'', Branch = ''main'',
                    Repository = ''MyCarrier-DevOps/test'', IsDetached = False\<rparr>"

definition test_gitRepo :: LocalGitRepository where
  "test_gitRepo = \<lparr>repo_GetGitContext = (\<lambda>ctx. Inr test_gitCtx),
                    repo_GetCommitAncestry = (\<lambda>ctx depth. Inr [''abc123'', ''def456''])\<rparr>"

definition test_finder_none :: SlipFinder where
  "test_finder_none = \<lparr>FindByCommits = (\<lambda>ctx repository commits. (None, [], None))\<rparr>"

text \<open>
  \<^verbatim>\<open>mockVaultClient\<close> of \<^verbatim>\<open>config_test.go\<close> (with a nil \<^verbatim>\<open>err\<close> field), and a small
  world: nothing set in the environment, no file, a JSON decoder that accepts the
  one document \<^verbatim>\<open>{}\<close>, an encoder that fails on a channel.
\<close>

definition mockVaultClient :: "(string \<rightharpoonup> 'v secret_data) \<Rightarrow> 'v VaultClient" where
  "mockVaultClient secrets =
     \<lparr>GetKVSecret = (\<lambda>path mount. case secrets path of
                                    Some secret \<Rightarrow> Inr secret
                                  | None \<Rightarrow> Inl (errors_New ''secret not found''))\<rparr>"

definition test_world :: "(unit, string) world" where
  "test_world =
     \<lparr>env = Map.empty,
      os_ReadFile = (\<lambda>p. ReadNotExist (errors_New ''no such file'')),
      DefaultVaultClientFactory = Inl ErrVaultClientFailed,
      json_Unmarshal = (\<lambda>s. if s = ''{}'' then Inr ''cfg'' else Inl (errors_New ''bad json'')),
      json_Marshal = (\<lambda>m. if m ''chan'' = None then Inr ''{}''
                           else Inl (errors_New ''unsupported type''))\<rparr>"

text \<open>\<^verbatim>\<open>TestLoadWithVaultClient_CustomKey\<close>: a locator with a key, the secret at its base path.\<close>

definition custom_key_world :: "(unit, string) world" where
  "custom_key_world =
     test_world\<lparr>env := [EnvVaultPipelineConfigPath \<mapsto> ''ci/slippy/pipeline#myconfig'']\<rparr>"

definition custom_key_client :: "unit VaultClient" where
  "custom_key_client =
     mockVaultClient [''ci/slippy/pipeline'' \<mapsto> [''myconfig'' \<mapsto> VString ''{}'']]"

text \<open>
  The repository of \<^verbatim>\<open>TestGoGitRepository_GetCommitAncestry_FirstParentOnly\<close>: an
  initial commit \<open>c0\<close>, a feature commit \<open>f1\<close> on it, two commits \<open>m1\<close>, \<open>m2\<close> on a side
  branch from \<open>c0\<close>, the merge \<open>mg\<close> of the side branch into the feature branch
  (first parent \<open>f1\<close>, second parent \<open>m2\<close>) and a last feature commit \<open>f2\<close>, the head.
  The short names stand for the commit ids; the commits are made in this order, one
  time unit apart.
\<close>

definition merge_commits :: "(string \<times> Commit) list" where
  "merge_commits =
     [(''c0'', \<lparr>Hash = ''c0'', ParentHashes = [], When = 1\<rparr>),
      (''f1'', \<lparr>Hash = ''f1'', ParentHashes = [''c0''], When = 2\<rparr>),
      (''m1'', \<lparr>Hash = ''m1'', ParentHashes = [''c0''], When = 3\<rparr>),
      (''m2'', \<lparr>Hash = ''m2'', ParentHashes = [''m1''], When = 4\<rparr>),
      (''mg'', \<lparr>Hash = ''mg'', ParentHashes = [''f1'', ''m2''], When = 5\<rparr>),
      (''f2'', \<lparr>Hash = ''f2'', ParentHashes = [''mg''], When = 6\<rparr>)]"

definition merge_repo :: git_Repository where
  "merge_repo =
     \<lparr>Head = Inr \<lparr>ref_Hash = ''f2'', ref_Name = ''refs/heads/main''\<rparr>,
      objects = map_of merge_commits,
      Remote_origin = Inr [''https://github.com/TestOrg/test-repo.git'']\<rparr>"

text \<open>
  A linear history of \<open>n\<close> commits, named 1 to \<open>n\<close>, the head last, as the loops of
  \<^verbatim>\<open>TestGoGitRepository_GetCommitAncestry_DepthLimit\<close> build it.
\<close>

definition chain_commit :: "nat \<Rightarrow> Commit" where
  "chain_commit k = \<lparr>Hash = itoa k, ParentHashes = (if k \<le> 1 then [] else [itoa (k - 1)]), When = k\<rparr>"

definition chain_repo :: "nat \<Rightarrow> git_Repository" where
  "chain_repo n =
     \<lparr>Head = Inr \<lparr>ref_Hash = itoa n, ref_Name = ''refs/heads/main''\<rparr>,
      objects = map_of (map (\<lambda>k. (itoa k, chain_commit k)) (rev [1..<Suc n])),
      Remote_origin = Inr [''git@github.com:TestOrg/test-repo.git'']\<rparr>"



text \<open>
  Origin URLs: an SCP-style URL of a user other than \<^verbatim>\<open>git\<close>, and the URL with
  surrounding blanks of \<^verbatim>\<open>TestParseRepoFromURL\<close>.
\<close>

definition other_user_repo :: git_Repository where
  "other_user_repo = merge_repo\<lparr>Remote_origin := Inr [''alice@github.com:owner/repo.git'']\<rparr>"

definition spaced_url_repo :: git_Repository where
  "spaced_url_repo = merge_repo\<lparr>Remote_origin := Inr [''  https://github.com/owner/repo.git  '']\<rparr>"

text \<open>
  Both sources configured, with a valid file; the file alone; and a secret whose
  \<^verbatim>\<open>config\<close> string does not decode (\<^verbatim>\<open>TestLoadWithVaultClient_VaultInvalidJSON\<close>).
\<close>

definition vault_and_file_world :: "(unit, string) world" where
  "vault_and_file_world =
     test_world\<lparr>env := [EnvVaultPipelineConfigPath \<mapsto> ''ci/slippy/pipeline'',
                          EnvPipelineConfig \<mapsto> ''pipeline.json''],
                  os_ReadFile := (\<lambda>p. ReadOk ''{}'')\<rparr>"

definition file_only_world :: "(unit, string) world" where
  "file_only_world =
     test_world\<lparr>env := [EnvPipelineConfig \<mapsto> ''pipeline.json''],
                  os_ReadFile := (\<lambda>p. ReadOk ''{}'')\<rparr>"

definition invalid_json_client :: "unit VaultClient" where
  "invalid_json_client =
     mockVaultClient [''ci/slippy/pipeline'' \<mapsto> [''config'' \<mapsto> VString ''not valid json'']]"

text \<open>
  \<^verbatim>\<open>TestLoadWithVaultClient_KeyNotFoundFallsBackToSecret\<close>: a locator whose key is not
  in the secret, the secret at the base path being the definition field by field.
\<close>

definition key_not_found_world :: "(unit, string) world" where
  "key_not_found_world =
     test_world\<lparr>env := [EnvVaultPipelineConfigPath \<mapsto> ''ci/slippy/pipeline#nonexistent'']\<rparr>"

definition direct_mapping_secret :: "unit secret_data" where
  "direct_mapping_secret =
     [''version'' \<mapsto> VString ''1'', ''name'' \<mapsto> VString ''fallback-pipeline'',
      ''steps'' \<mapsto> VOther ()]"

definition key_not_found_client :: "unit VaultClient" where
  "key_not_found_client = mockVaultClient [''ci/slippy/pipeline'' \<mapsto> direct_mapping_secret]"






section \<open>Theorems\<close>

lemma itoa_small: "n < 10 \<Longrightarrow> itoa n = [digit_char n]"
  by (subst itoa.simps) simp

text \<open>
  C6: when the store reports no match (nil slip, nil error) for the non-empty commit
  sequence it was queried with, Resolve fails with an error that is ErrNoAncestorSlip
  for \<^verbatim>\<open>errors.Is\<close>, and whose message gives the number of commits searched and the
  head commit.
\<close>

theorem Resolve_no_match_is_ErrNoAncestorSlip:
  assumes "repo_GetGitContext gitRepo ctx = Inr gitCtx"
    and "repo_GetCommitAncestry gitRepo ctx
           (if Depth input \<le> 0 then DefaultAncestryDepth else Depth input) = Inr commits"
    and "commits \<noteq> []"
    and "FindByCommits finder ctx (Repository gitCtx) commits = (None, matched, None)"
  shows "\<exists>err. Resolve gitRepo finder ctx input = Some (Inl err)
           \<and> errors_Is err ErrNoAncestorSlip
           \<and> Error err = ''no slip found in commit ancestry: searched ''
                          @ itoa (length commits) @ '' commits from '' @ HeadSHA gitCtx"
  using assms
  by (cases commits) (simp_all add: Resolve_def Let_def ErrNoAncestorSlip_def errors_New_def)

text \<open>Witness for C6: two commits searched from head abc123, the store matches none.\<close>

theorem Resolve_no_match_witness:
  "\<exists>err. Resolve test_gitRepo test_finder_none context_Background \<lparr>Depth = 10\<rparr> = Some (Inl err)
         \<and> errors_Is err ErrNoAncestorSlip
         \<and> Error err = ''no slip found in commit ancestry: searched 2 commits from abc123''"
  using Resolve_no_match_is_ErrNoAncestorSlip
          [of test_gitRepo context_Background test_gitCtx "\<lparr>Depth = 10\<rparr>"
              "[''abc123'', ''def456'']" test_finder_none "[]"]
  by (simp add: test_gitRepo_def test_finder_none_def test_gitCtx_def itoa_small digit_char_def)


subsection \<open>Errors\<close>

lemma errors_Is_refl: "errors_Is e e"
  by (cases e) simp

lemma errors_Is_first: "errors_Is (GoErr m (e # ws)) e"
  by (cases e) simp

subsection \<open>Pipeline configuration\<close>

text \<open>
  In \<open>parsePipelineConfigFromVault\<close> the key looked up is always \<^verbatim>\<open>config\<close>: when the
  mapping has no value under it, or a value that is not a string, the whole mapping
  is encoded and decoded as the pipeline definition, and a failure of either step is
  an ErrPipelineConfigInvalid.
\<close>

lemma parsePipelineConfigFromVault_fallback:
  assumes "secretData ''config'' = None \<or> (\<exists>v. secretData ''config'' = Some (VOther v))"
  shows "(\<forall>jsonData config. json_Marshal w secretData = Inr jsonData \<and> json_Unmarshal w jsonData = Inr config
            \<longrightarrow> parsePipelineConfigFromVault w secretData = Inr config)
       \<and> (\<forall>jsonData err. json_Marshal w secretData = Inr jsonData \<and> json_Unmarshal w jsonData = Inl err
            \<longrightarrow> (\<exists>e. parsePipelineConfigFromVault w secretData = Inl e \<and> errors_Is e ErrPipelineConfigInvalid))
       \<and> (\<forall>err. json_Marshal w secretData = Inl err
            \<longrightarrow> (\<exists>e. parsePipelineConfigFromVault w secretData = Inl e \<and> errors_Is e ErrPipelineConfigInvalid))"
  using assms
  by (auto simp: parsePipelineConfigFromVault_def errors_Is_first simp del: errors_Is.simps)


lemma parse_indep_files:
  "parsePipelineConfigFromVault (w\<lparr>env := e, os_ReadFile := rf\<rparr>) d = parsePipelineConfigFromVault w d"
  by (simp add: parsePipelineConfigFromVault_def
        cong: option.case_cong secret_value.case_cong sum.case_cong)

lemma Env_names_distinct:
  "EnvVaultPipelineConfigPath \<noteq> EnvPipelineConfig" "EnvVaultPipelineConfigMount \<noteq> EnvPipelineConfig"
  by (simp_all add: EnvVaultPipelineConfigPath_def EnvPipelineConfig_def EnvVaultPipelineConfigMount_def)

lemma fromVault_indep_files:
  "loadPipelineConfigFromVault (w\<lparr>env := (env w)(EnvPipelineConfig := x), os_ReadFile := rf\<rparr>) f p
     = loadPipelineConfigFromVault w f p"
  by (simp add: loadPipelineConfigFromVault_def os_Getenv_def Env_names_distinct parse_indep_files
        cong: option.case_cong sum.case_cong)

lemma Required_names_both:
  "\<exists>pre mid post. Error ErrPipelineConfigRequired = pre @ EnvVaultPipelineConfigPath @ mid @ EnvPipelineConfig @ post"
proof -
  have "Error ErrPipelineConfigRequired =
      ''pipeline configuration required: set '' @ EnvVaultPipelineConfigPath
      @ '' (with VAULT_ADDRESS, VAULT_ROLE_ID, VAULT_SECRET_ID) or '' @ EnvPipelineConfig @ '' for local file''"
    by (simp add: ErrPipelineConfigRequired_def errors_New_def EnvVaultPipelineConfigPath_def EnvPipelineConfig_def)
  then show ?thesis by blast
qed


lemma errors_Is_wrapped: "e \<in> set ws \<Longrightarrow> errors_Is (GoErr m ws) e"
  using errors_Is_refl [of e] by auto

lemma parse_Inl_invalid:
  "parsePipelineConfigFromVault w d = Inl e \<Longrightarrow> errors_Is e ErrPipelineConfigInvalid"
  by (auto simp: parsePipelineConfigFromVault_def errors_Is_first
           simp del: errors_Is.simps split: option.splits secret_value.splits sum.splits)

lemma fromVault_factory_failure:
  "(case f of None \<Rightarrow> DefaultVaultClientFactory w | Some fac \<Rightarrow> fac) = Inl err
   \<Longrightarrow> loadPipelineConfigFromVault w f p = Inl err"
  by (simp add: loadPipelineConfigFromVault_def Let_def)

lemma fromVault_fetch_failure:
  assumes "(case f of None \<Rightarrow> DefaultVaultClientFactory w | Some fac \<Rightarrow> fac) = Inr client"
    and "GetKVSecret client p
           (if os_Getenv w EnvVaultPipelineConfigMount = [] then DefaultVaultPipelineMount
            else os_Getenv w EnvVaultPipelineConfigMount) = Inl err"
  shows "loadPipelineConfigFromVault w f p
           = Inl (GoErr (Error ErrVaultSecretNotFound @ '' at path '' @ p @ '': '' @ Error err)
                        [ErrVaultSecretNotFound, err])"
  using assms by (simp add: loadPipelineConfigFromVault_def Let_def)

lemma fromVault_fetched:
  assumes "(case f of None \<Rightarrow> DefaultVaultClientFactory w | Some fac \<Rightarrow> fac) = Inr client"
    and "GetKVSecret client p
           (if os_Getenv w EnvVaultPipelineConfigMount = [] then DefaultVaultPipelineMount
            else os_Getenv w EnvVaultPipelineConfigMount) = Inr secretData"
  shows "loadPipelineConfigFromVault w f p = parsePipelineConfigFromVault w secretData"
  using assms by (simp add: loadPipelineConfigFromVault_def Let_def)

text \<open>
  C4: with a secret locator configured, the result is that of the secret source alone,
  whatever the file variable and the file system hold: a client that cannot be built
  gives its error, a fetch that fails gives an ErrVaultSecretNotFound wrapping the
  failure, and a fetched secret gives the result of parsing it, a parse failure being
  an ErrPipelineConfigInvalid; none of these falls back to the file. With no locator
  the file path is used; with neither, the error is ErrPipelineConfigRequired, whose
  message names both environment variables.
\<close>

theorem loadPipelineConfigWithVault_precedence:
  "(os_Getenv w EnvVaultPipelineConfigPath \<noteq> [] \<longrightarrow>
      loadPipelineConfigWithVault w f
        = loadPipelineConfigFromVault w f (os_Getenv w EnvVaultPipelineConfigPath)
      \<and> (\<forall>x rf. loadPipelineConfigWithVault (w\<lparr>env := (env w)(EnvPipelineConfig := x), os_ReadFile := rf\<rparr>) f
               = loadPipelineConfigWithVault w f)
      \<and> (\<forall>err. (case f of None \<Rightarrow> DefaultVaultClientFactory w | Some fac \<Rightarrow> fac) = Inl err
            \<longrightarrow> loadPipelineConfigWithVault w f = Inl err)
      \<and> (\<forall>client err.
            (case f of None \<Rightarrow> DefaultVaultClientFactory w | Some fac \<Rightarrow> fac) = Inr client
            \<and> GetKVSecret client (os_Getenv w EnvVaultPipelineConfigPath)
                 (if os_Getenv w EnvVaultPipelineConfigMount = [] then DefaultVaultPipelineMount
                  else os_Getenv w EnvVaultPipelineConfigMount) = Inl err
            \<longrightarrow> (\<exists>e. loadPipelineConfigWithVault w f = Inl e
                      \<and> errors_Is e ErrVaultSecretNotFound \<and> errors_Is e err))
      \<and> (\<forall>client secretData.
            (case f of None \<Rightarrow> DefaultVaultClientFactory w | Some fac \<Rightarrow> fac) = Inr client
            \<and> GetKVSecret client (os_Getenv w EnvVaultPipelineConfigPath)
                 (if os_Getenv w EnvVaultPipelineConfigMount = [] then DefaultVaultPipelineMount
                  else os_Getenv w EnvVaultPipelineConfigMount) = Inr secretData
            \<longrightarrow> loadPipelineConfigWithVault w f = parsePipelineConfigFromVault w secretData
                \<and> (\<forall>e. parsePipelineConfigFromVault w secretData = Inl e
                       \<longrightarrow> loadPipelineConfigWithVault w f = Inl e
                           \<and> errors_Is e ErrPipelineConfigInvalid)))
   \<and> (os_Getenv w EnvVaultPipelineConfigPath = [] \<and> os_Getenv w EnvPipelineConfig \<noteq> [] \<longrightarrow>
        loadPipelineConfigWithVault w f = loadPipelineConfigFromFile w (os_Getenv w EnvPipelineConfig))
   \<and> (os_Getenv w EnvVaultPipelineConfigPath = [] \<and> os_Getenv w EnvPipelineConfig = [] \<longrightarrow>
        loadPipelineConfigWithVault w f = Inl ErrPipelineConfigRequired
        \<and> (\<exists>pre mid post. Error ErrPipelineConfigRequired
               = pre @ EnvVaultPipelineConfigPath @ mid @ EnvPipelineConfig @ post))"
proof (intro conjI impI allI)
  assume v: "os_Getenv w EnvVaultPipelineConfigPath \<noteq> []"
  then show d: "loadPipelineConfigWithVault w f
        = loadPipelineConfigFromVault w f (os_Getenv w EnvVaultPipelineConfigPath)"
    by (simp add: loadPipelineConfigWithVault_def)
  {
    fix x rf
    let ?w' = "w\<lparr>env := (env w)(EnvPipelineConfig := x), os_ReadFile := rf\<rparr>"
    have g: "os_Getenv ?w' EnvVaultPipelineConfigPath = os_Getenv w EnvVaultPipelineConfigPath"
      by (simp add: os_Getenv_def Env_names_distinct)
    show "loadPipelineConfigWithVault ?w' f = loadPipelineConfigWithVault w f"
      using v by (simp only: loadPipelineConfigWithVault_def Let_def g fromVault_indep_files
                    not_False_eq_True if_True)
  }
  {
    fix err
    assume "(case f of None \<Rightarrow> DefaultVaultClientFactory w | Some fac \<Rightarrow> fac) = Inl err"
    then show "loadPipelineConfigWithVault w f = Inl err"
      unfolding d by (rule fromVault_factory_failure)
  }
  {
    fix client err
    assume "(case f of None \<Rightarrow> DefaultVaultClientFactory w | Some fac \<Rightarrow> fac) = Inr client
            \<and> GetKVSecret client (os_Getenv w EnvVaultPipelineConfigPath)
                 (if os_Getenv w EnvVaultPipelineConfigMount = [] then DefaultVaultPipelineMount
                  else os_Getenv w EnvVaultPipelineConfigMount) = Inl err"
    then have "loadPipelineConfigWithVault w f
           = Inl (GoErr (Error ErrVaultSecretNotFound @ '' at path ''
                           @ os_Getenv w EnvVaultPipelineConfigPath @ '': '' @ Error err)
                        [ErrVaultSecretNotFound, err])"
      unfolding d by (elim conjE) (rule fromVault_fetch_failure)
    then show "\<exists>e. loadPipelineConfigWithVault w f = Inl e
                      \<and> errors_Is e ErrVaultSecretNotFound \<and> errors_Is e err"
      by (simp add: errors_Is_wrapped del: errors_Is.simps)
  }
  {
    fix client secretData
    assume a: "(case f of None \<Rightarrow> DefaultVaultClientFactory w | Some fac \<Rightarrow> fac) = Inr client
            \<and> GetKVSecret client (os_Getenv w EnvVaultPipelineConfigPath)
                 (if os_Getenv w EnvVaultPipelineConfigMount = [] then DefaultVaultPipelineMount
                  else os_Getenv w EnvVaultPipelineConfigMount) = Inr secretData"
    then show p: "loadPipelineConfigWithVault w f = parsePipelineConfigFromVault w secretData"
      unfolding d by (elim conjE) (rule fromVault_fetched)
    fix e
    assume "parsePipelineConfigFromVault w secretData = Inl e"
    then show "loadPipelineConfigWithVault w f = Inl e" "errors_Is e ErrPipelineConfigInvalid"
      using p by (simp_all add: parse_Inl_invalid del: errors_Is.simps)
  }
next
  assume "os_Getenv w EnvVaultPipelineConfigPath = [] \<and> os_Getenv w EnvPipelineConfig \<noteq> []"
  then show "loadPipelineConfigWithVault w f = loadPipelineConfigFromFile w (os_Getenv w EnvPipelineConfig)"
    by (simp add: loadPipelineConfigWithVault_def)
next
  assume "os_Getenv w EnvVaultPipelineConfigPath = [] \<and> os_Getenv w EnvPipelineConfig = []"
  then show "loadPipelineConfigWithVault w f = Inl ErrPipelineConfigRequired"
    by (simp add: loadPipelineConfigWithVault_def)
next
  show "\<exists>pre mid post. Error ErrPipelineConfigRequired
               = pre @ EnvVaultPipelineConfigPath @ mid @ EnvPipelineConfig @ post"
    by (rule Required_names_both)
qed

lemma vault_and_file_env:
  "os_Getenv vault_and_file_world EnvVaultPipelineConfigPath = ''ci/slippy/pipeline''"
  "os_Getenv vault_and_file_world EnvVaultPipelineConfigMount = []"
  "os_Getenv vault_and_file_world EnvPipelineConfig = ''pipeline.json''"
  "os_ReadFile vault_and_file_world ''pipeline.json'' = ReadOk ''{}''"
  "json_Unmarshal vault_and_file_world = json_Unmarshal test_world"
  by (simp_all add: vault_and_file_world_def test_world_def os_Getenv_def
        EnvVaultPipelineConfigPath_def EnvPipelineConfig_def EnvVaultPipelineConfigMount_def)

text \<open>
  Witness for C4, with a valid file configured beside the locator: a client that
  cannot be built (given or default factory), a secret that is not found, a secret
  that does not decode; then the file alone, and nothing configured.
\<close>

theorem loadPipelineConfigWithVault_precedence_witness:
  "loadPipelineConfigFromFile vault_and_file_world ''pipeline.json'' = Inr ''cfg''
   \<and> loadPipelineConfigWithVault vault_and_file_world (Some (Inl (errors_New ''vault connection failed'')))
       = Inl (errors_New ''vault connection failed'')
   \<and> loadPipelineConfigWithVault vault_and_file_world None = Inl ErrVaultClientFailed
   \<and> (\<exists>e. loadPipelineConfigWithVault vault_and_file_world (Some (Inr (mockVaultClient Map.empty)))
              = Inl e
          \<and> errors_Is e ErrVaultSecretNotFound \<and> errors_Is e (errors_New ''secret not found''))
   \<and> (\<exists>e. loadPipelineConfigWithVault vault_and_file_world (Some (Inr invalid_json_client)) = Inl e
          \<and> errors_Is e ErrPipelineConfigInvalid)
   \<and> loadPipelineConfigWithVault file_only_world (Some (Inr (mockVaultClient Map.empty))) = Inr ''cfg''
   \<and> loadPipelineConfigWithVault test_world (Some (Inr (mockVaultClient Map.empty)))
       = Inl ErrPipelineConfigRequired"
proof -
  let ?w = vault_and_file_world
  let ?mount = "if os_Getenv ?w EnvVaultPipelineConfigMount = [] then DefaultVaultPipelineMount
                else os_Getenv ?w EnvVaultPipelineConfigMount"
  let ?failed = "Inl (errors_New ''vault connection failed'') :: unit VaultClientFactory"
  let ?empty = "mockVaultClient Map.empty :: unit VaultClient"
  have v: "os_Getenv ?w EnvVaultPipelineConfigPath \<noteq> []" by (simp add: vault_and_file_env)
  have file_ok: "loadPipelineConfigFromFile ?w ''pipeline.json'' = Inr ''cfg''"
    by (simp add: loadPipelineConfigFromFile_def vault_and_file_env test_world_def)
  have c1: "(case Some ?failed of None \<Rightarrow> DefaultVaultClientFactory ?w | Some fac \<Rightarrow> fac)
              = Inl (errors_New ''vault connection failed'')"
    by simp
  have fac: "loadPipelineConfigWithVault ?w (Some ?failed)
               = Inl (errors_New ''vault connection failed'')"
    using loadPipelineConfigWithVault_precedence [of ?w "Some ?failed"] v c1 by blast
  have c2: "(case None of None \<Rightarrow> DefaultVaultClientFactory ?w | Some fac \<Rightarrow> fac)
              = Inl ErrVaultClientFailed"
    by (simp add: vault_and_file_world_def test_world_def)
  have dflt: "loadPipelineConfigWithVault ?w None = Inl ErrVaultClientFailed"
    using loadPipelineConfigWithVault_precedence [of ?w None] v c2 by blast
  have c3: "(case Some (Inr ?empty) of None \<Rightarrow> DefaultVaultClientFactory ?w | Some fac \<Rightarrow> fac)
              = Inr ?empty"
    by simp
  have g1: "GetKVSecret ?empty (os_Getenv ?w EnvVaultPipelineConfigPath) ?mount
              = Inl (errors_New ''secret not found'')"
    by (simp add: mockVaultClient_def)
  have fetch: "\<exists>e. loadPipelineConfigWithVault ?w (Some (Inr ?empty)) = Inl e
          \<and> errors_Is e ErrVaultSecretNotFound \<and> errors_Is e (errors_New ''secret not found'')"
    using loadPipelineConfigWithVault_precedence [of ?w "Some (Inr ?empty)"] v c3 g1 by blast
  have c4: "(case Some (Inr invalid_json_client) of None \<Rightarrow> DefaultVaultClientFactory ?w
              | Some fac \<Rightarrow> fac) = Inr invalid_json_client"
    by simp
  have g2: "GetKVSecret invalid_json_client (os_Getenv ?w EnvVaultPipelineConfigPath) ?mount
              = Inr [''config'' \<mapsto> VString ''not valid json'']"
    by (simp add: invalid_json_client_def mockVaultClient_def vault_and_file_env)
  have p2: "parsePipelineConfigFromVault ?w [''config'' \<mapsto> VString ''not valid json'']
              = Inl (GoErr (Error ErrPipelineConfigInvalid @ '': '' @ Error (errors_New ''bad json''))
                           [ErrPipelineConfigInvalid, errors_New ''bad json''])"
    by (simp add: parsePipelineConfigFromVault_def vault_and_file_env test_world_def)
  have parse: "\<exists>e. loadPipelineConfigWithVault ?w (Some (Inr invalid_json_client)) = Inl e
          \<and> errors_Is e ErrPipelineConfigInvalid"
    using loadPipelineConfigWithVault_precedence [of ?w "Some (Inr invalid_json_client)"]
          v c4 g2 p2 by blast
  have e5: "os_Getenv file_only_world EnvVaultPipelineConfigPath = []
            \<and> os_Getenv file_only_world EnvPipelineConfig \<noteq> []"
    and f5: "loadPipelineConfigFromFile file_only_world (os_Getenv file_only_world EnvPipelineConfig)
               = Inr ''cfg''"
    by (simp_all add: file_only_world_def test_world_def os_Getenv_def loadPipelineConfigFromFile_def
          EnvVaultPipelineConfigPath_def EnvPipelineConfig_def)
  have fo: "loadPipelineConfigWithVault file_only_world (Some (Inr ?empty)) = Inr ''cfg''"
    using loadPipelineConfigWithVault_precedence [of file_only_world "Some (Inr ?empty)"] e5 f5
    by metis
  have e6: "os_Getenv test_world EnvVaultPipelineConfigPath = []
            \<and> os_Getenv test_world EnvPipelineConfig = []"
    by (simp add: test_world_def os_Getenv_def)
  have none: "loadPipelineConfigWithVault test_world (Some (Inr ?empty))
                = Inl ErrPipelineConfigRequired"
    using loadPipelineConfigWithVault_precedence [of test_world "Some (Inr ?empty)"] e6 by blast
  from file_ok fac dflt fetch parse fo none show ?thesis by blast
qed


lemma parse_config_string_eq_file:
  assumes "secretData ''config'' = Some (VString s)" and "os_ReadFile w' path = ReadOk s"
    and "json_Unmarshal w' = json_Unmarshal w"
  shows "parsePipelineConfigFromVault w secretData = loadPipelineConfigFromFile w' path"
  using assms by (simp add: parsePipelineConfigFromVault_def loadPipelineConfigFromFile_def)

lemma loadFile_ok_or_invalid:
  assumes "os_ReadFile w path = ReadOk s"
  shows "(\<exists>config. json_Unmarshal w s = Inr config \<and> loadPipelineConfigFromFile w path = Inr config)
       \<or> (\<exists>err e. json_Unmarshal w s = Inl err \<and> loadPipelineConfigFromFile w path = Inl e
             \<and> errors_Is e ErrPipelineConfigInvalid)"
  using assms
  by (cases "json_Unmarshal w s")
     (simp_all add: loadPipelineConfigFromFile_def errors_Is_first del: errors_Is.simps)


text \<open>
  C7: a secret whose \<^verbatim>\<open>config\<close> key holds the string \<open>s\<close> and a file whose contents
  are \<open>s\<close> resolve to the same result: the decoded value of \<open>s\<close>, or an
  ErrPipelineConfigInvalid when \<open>s\<close> does not decode.
\<close>

theorem secret_config_string_same_as_file:
  assumes vp: "os_Getenv w1 EnvVaultPipelineConfigPath = p" "p \<noteq> []"
    and fetch: "GetKVSecret client p
                  (if os_Getenv w1 EnvVaultPipelineConfigMount = [] then DefaultVaultPipelineMount
                   else os_Getenv w1 EnvVaultPipelineConfigMount) = Inr secretData"
    and cfg: "secretData ''config'' = Some (VString s)"
    and nov: "os_Getenv w2 EnvVaultPipelineConfigPath = []"
    and fp: "os_Getenv w2 EnvPipelineConfig = path" "path \<noteq> []"
    and rd: "os_ReadFile w2 path = ReadOk s"
    and same: "json_Unmarshal w2 = json_Unmarshal w1"
  shows "loadPipelineConfigWithVault w1 (Some (Inr client)) = loadPipelineConfigWithVault w2 f2
       \<and> ((\<exists>config. json_Unmarshal w1 s = Inr config
              \<and> loadPipelineConfigWithVault w1 (Some (Inr client)) = Inr config)
          \<or> (\<exists>err e. json_Unmarshal w1 s = Inl err
                \<and> loadPipelineConfigWithVault w1 (Some (Inr client)) = Inl e
                \<and> errors_Is e ErrPipelineConfigInvalid))"
proof -
  have l: "loadPipelineConfigWithVault w1 (Some (Inr client)) = parsePipelineConfigFromVault w1 secretData"
    using vp fetch by (simp add: loadPipelineConfigWithVault_def loadPipelineConfigFromVault_def Let_def)
  have r: "loadPipelineConfigWithVault w2 f2 = loadPipelineConfigFromFile w2 path"
    using nov fp by (simp add: loadPipelineConfigWithVault_def)
  have e: "parsePipelineConfigFromVault w1 secretData = loadPipelineConfigFromFile w2 path"
    using cfg rd same by (rule parse_config_string_eq_file)
  show ?thesis
    using loadFile_ok_or_invalid [OF rd] by (simp add: l r e same)
qed


text \<open>Witness for C7: the document \<^verbatim>\<open>{}\<close> in a secret and in a file.\<close>

theorem secret_config_string_same_as_file_witness:
  "(let w1 = test_world\<lparr>env := [EnvVaultPipelineConfigPath \<mapsto> ''ci/slippy/pipeline'']\<rparr>;
        w2 = test_world\<lparr>env := [EnvPipelineConfig \<mapsto> ''pipeline.json''], os_ReadFile := (\<lambda>p. ReadOk ''{}'')\<rparr>;
        client = mockVaultClient [''ci/slippy/pipeline'' \<mapsto> [''config'' \<mapsto> VString ''{}'']]
    in loadPipelineConfigWithVault w1 (Some (Inr client)) = loadPipelineConfigWithVault w2 None
       \<and> loadPipelineConfigWithVault w1 (Some (Inr client)) = Inr ''cfg'')"
proof -
  let ?w1 = "test_world\<lparr>env := [EnvVaultPipelineConfigPath \<mapsto> ''ci/slippy/pipeline'']\<rparr>"
  let ?w2 = "test_world\<lparr>env := [EnvPipelineConfig \<mapsto> ''pipeline.json''], os_ReadFile := (\<lambda>p. ReadOk ''{}'')\<rparr>"
  let ?client = "mockVaultClient [''ci/slippy/pipeline'' \<mapsto> [''config'' \<mapsto> VString ''{}'' :: unit secret_value]]"
  have h1: "os_Getenv ?w1 EnvVaultPipelineConfigPath = ''ci/slippy/pipeline''"
    and h2: "''ci/slippy/pipeline'' \<noteq> []"
    and h3: "GetKVSecret ?client ''ci/slippy/pipeline''
               (if os_Getenv ?w1 EnvVaultPipelineConfigMount = [] then DefaultVaultPipelineMount
                else os_Getenv ?w1 EnvVaultPipelineConfigMount) = Inr [''config'' \<mapsto> VString ''{}'']"
    and h4: "[''config'' \<mapsto> VString ''{}'' :: unit secret_value] ''config'' = Some (VString ''{}'')"
    and h5: "os_Getenv ?w2 EnvVaultPipelineConfigPath = []"
    and h6: "os_Getenv ?w2 EnvPipelineConfig = ''pipeline.json''"
    and h7: "''pipeline.json'' \<noteq> []"
    and h8: "os_ReadFile ?w2 ''pipeline.json'' = ReadOk ''{}''"
    and h9: "json_Unmarshal ?w2 = json_Unmarshal ?w1"
    by (simp_all add: test_world_def os_Getenv_def mockVaultClient_def EnvVaultPipelineConfigPath_def
          EnvPipelineConfig_def EnvVaultPipelineConfigMount_def)
  have u: "json_Unmarshal ?w1 ''{}'' = Inr ''cfg''"
    by (simp add: test_world_def)
  have "loadPipelineConfigWithVault ?w1 (Some (Inr ?client)) = loadPipelineConfigWithVault ?w2 None
       \<and> loadPipelineConfigWithVault ?w1 (Some (Inr ?client)) = Inr ''cfg''"
    using secret_config_string_same_as_file [OF h1 h2 h3 h4 h5 h6 h7 h8 h9, of None] u
    by auto
  then show ?thesis unfolding Let_def .
qed


text \<open>
  The locator of the specification splits at the last \<^verbatim>\<open>#\<close>, takes the key
  \<^verbatim>\<open>config\<close> when there is none, and an empty key after a bare \<^verbatim>\<open>#\<close> at the end.
\<close>

lemma takeWhile_dropWhile_at:
  "c \<notin> set a \<Longrightarrow> takeWhile (\<lambda>x. x \<noteq> c) (a @ c # b) = a
     \<and> dropWhile (\<lambda>x. x \<noteq> c) (a @ c # b) = c # b"
  by (induction a) auto

lemma spec_parseLocator_last_hash:
  assumes "CHR ''#'' \<notin> set k"
  shows "spec_parseLocator (p @ ''#'' @ k) = (p, k)"
proof -
  have r: "rev (p @ ''#'' @ k) = rev k @ CHR ''#'' # rev p" by simp
  have n: "CHR ''#'' \<notin> set (rev k)" using assms by simp
  have "takeWhile (\<lambda>c. c \<noteq> CHR ''#'') (rev k @ CHR ''#'' # rev p) = rev k"
    "dropWhile (\<lambda>c. c \<noteq> CHR ''#'') (rev k @ CHR ''#'' # rev p) = CHR ''#'' # rev p"
    using takeWhile_dropWhile_at [OF n, of "rev p"] by simp_all
  then show ?thesis unfolding spec_parseLocator_def r by simp
qed

lemma spec_parseLocator_bare_hash: "spec_parseLocator (p @ ''#'') = (p, [])"
  using spec_parseLocator_last_hash [of "[]" p] by simp

text \<open>
  C2: the locator \<^verbatim>\<open>ci/slippy/pipeline#myconfig\<close> of \<^verbatim>\<open>TestLoadWithVaultClient_CustomKey\<close>.
  The specification splits it into the path \<^verbatim>\<open>ci/slippy/pipeline\<close>, where the secret
  is, and the key \<^verbatim>\<open>myconfig\<close>, which holds a valid document. The code fetches the
  whole locator as the path and reports that the secret is not found.
\<close>

theorem loadPipelineConfigFromVault_locator_not_split:
  "loadPipelineConfigWithVault custom_key_world (Some (Inr custom_key_client))
     = Inl (GoErr ''pipeline configuration not found in Vault at path ci/slippy/pipeline#myconfig: secret not found''
              [ErrVaultSecretNotFound, errors_New ''secret not found''])
   \<and> spec_parseLocator ''ci/slippy/pipeline#myconfig'' = (''ci/slippy/pipeline'', ''myconfig'')
   \<and> GetKVSecret custom_key_client ''ci/slippy/pipeline'' DefaultVaultPipelineMount
        = Inr [''myconfig'' \<mapsto> VString ''{}'']
   \<and> json_Unmarshal custom_key_world ''{}'' = Inr ''cfg''"
  by (simp add: custom_key_world_def custom_key_client_def test_world_def os_Getenv_def
        mockVaultClient_def EnvVaultPipelineConfigPath_def
        EnvVaultPipelineConfigMount_def loadPipelineConfigWithVault_def loadPipelineConfigFromVault_def
        ErrVaultSecretNotFound_def errors_New_def spec_parseLocator_def)

text \<open>
  C8: the locator \<^verbatim>\<open>ci/slippy/pipeline#nonexistent\<close> of
  \<^verbatim>\<open>TestLoadWithVaultClient_KeyNotFoundFallsBackToSecret\<close>. The secret at the base path
  has no value under the key \<^verbatim>\<open>nonexistent\<close> and is a definition field by field, so
  the specification falls back to the whole mapping, which encodes and decodes. The
  code never reaches the fallback: it fetches the whole locator as the path and
  reports that the secret is not found.
\<close>

theorem loadPipelineConfigFromVault_no_fallback_for_locator_key:
  "loadPipelineConfigWithVault key_not_found_world (Some (Inr key_not_found_client))
     = Inl (GoErr ''pipeline configuration not found in Vault at path ci/slippy/pipeline#nonexistent: secret not found''
              [ErrVaultSecretNotFound, errors_New ''secret not found''])
   \<and> spec_parseLocator ''ci/slippy/pipeline#nonexistent'' = (''ci/slippy/pipeline'', ''nonexistent'')
   \<and> GetKVSecret key_not_found_client ''ci/slippy/pipeline'' DefaultVaultPipelineMount
        = Inr direct_mapping_secret
   \<and> direct_mapping_secret ''nonexistent'' = None
   \<and> json_Marshal key_not_found_world direct_mapping_secret = Inr ''{}''
   \<and> json_Unmarshal key_not_found_world ''{}'' = Inr ''cfg''"
  by (simp add: key_not_found_world_def key_not_found_client_def direct_mapping_secret_def
        test_world_def os_Getenv_def mockVaultClient_def EnvVaultPipelineConfigPath_def
        EnvVaultPipelineConfigMount_def loadPipelineConfigWithVault_def loadPipelineConfigFromVault_def
        ErrVaultSecretNotFound_def errors_New_def spec_parseLocator_def)


subsection \<open>The ancestry walk\<close>

declare ForEach.simps [simp del]

text \<open>The walk never collects more than \<open>depth\<close> commits.\<close>

lemma ForEach_length:
  "int (length (snd (ForEach objs ctx depth seen heap commits))) \<le> max depth (int (length commits))"
proof (induction objs ctx depth seen heap commits rule: ForEach.induct)
  case (1 objs ctx depth seen heap commits)
  show ?case
  proof (cases "Next objs seen heap")
    case EOF
    then show ?thesis by (subst ForEach.simps) simp
  next
    case (NextErr e)
    then show ?thesis by (subst ForEach.simps) simp
  next
    case (Yield c seen' heap')
    show ?thesis
    proof (cases "ctx_Done ctx (length commits) \<or> depth \<le> int (length commits)")
      case True
      with Yield show ?thesis by (subst ForEach.simps) auto
    next
      case False
      with Yield have "ForEach objs ctx depth seen heap commits
                       = ForEach objs ctx depth seen' heap' (commits @ [Hash c])"
        by (subst ForEach.simps) simp
      moreover have "int (length (snd (ForEach objs ctx depth seen' heap' (commits @ [Hash c]))))
                     \<le> max depth (int (length (commits @ [Hash c])))"
        using "1.IH" [OF Yield] False by simp
      ultimately show ?thesis using False by simp
    qed
  qed
qed





lemma GetCommitAncestry_Inr_iff:
  "GetCommitAncestry r ctx depth0 = Inr cs \<longleftrightarrow>
     (\<exists>head commit err. Head r = Inr head \<and> objects r (ref_Hash head) = Some commit
        \<and> ForEach (objects r) ctx (if depth0 \<le> 0 then DefaultAncestryDepth else depth0) [] [commit] []
            = (err, cs)
        \<and> cs \<noteq> [] \<and> (\<forall>e. err = Some e \<longrightarrow> errors_Is e ErrStop))"
  by (auto simp: GetCommitAncestry_def CommitObject_def Let_def
           split: sum.splits option.splits prod.splits if_splits)

text \<open>
  C10: \<^verbatim>\<open>GetCommitAncestry\<close> itself replaces a depth of zero or less by the default 25
  before walking, and then returns at most 25 commits.
\<close>

theorem GetCommitAncestry_normalizes_depth:
  assumes "depth \<le> 0"
  shows "GetCommitAncestry r ctx depth = GetCommitAncestry r ctx DefaultAncestryDepth
       \<and> DefaultAncestryDepth = 25
       \<and> (\<forall>cs. GetCommitAncestry r ctx depth = Inr cs \<longrightarrow> length cs \<le> 25)"
proof (intro conjI allI impI)
  show "GetCommitAncestry r ctx depth = GetCommitAncestry r ctx DefaultAncestryDepth"
    using assms by (simp add: GetCommitAncestry_def DefaultAncestryDepth_def)
  show "DefaultAncestryDepth = 25" by (simp add: DefaultAncestryDepth_def)
  fix cs assume "GetCommitAncestry r ctx depth = Inr cs"
  then obtain commit err where
    "ForEach (objects r) ctx DefaultAncestryDepth [] [commit] [] = (err, cs)"
    using assms unfolding GetCommitAncestry_Inr_iff by auto
  then have "int (length cs) \<le> max DefaultAncestryDepth (int (length ([] :: string list)))"
    using ForEach_length [of "objects r" ctx DefaultAncestryDepth "[]" "[commit]" "[]"] by simp
  then show "length cs \<le> 25" by (simp add: DefaultAncestryDepth_def)
qed






lemma chain_walk_0:
  "map_sum id length (GetCommitAncestry (chain_repo 30) context_Background 0) = Inr 25"
  by code_simp

text \<open>Witness for C10: depth 0 on a linear history of 30 commits returns 25 of them.\<close>

theorem GetCommitAncestry_normalizes_depth_witness:
  "(0::int) \<le> 0
   \<and> GetCommitAncestry (chain_repo 30) context_Background 0
       = GetCommitAncestry (chain_repo 30) context_Background 25
   \<and> map_sum id length (GetCommitAncestry (chain_repo 30) context_Background 0) = Inr 25"
  using GetCommitAncestry_normalizes_depth [of 0 "chain_repo 30" context_Background] chain_walk_0
  by simp








text \<open>
  C1: on the repository of \<^verbatim>\<open>TestGoGitRepository_GetCommitAncestry_FirstParentOnly\<close> the
  walk returns the commits \<open>m2\<close> and \<open>m1\<close> of the merged side branch, reached through
  the second parent of the merge \<open>mg\<close>, whose first parent is \<open>f1\<close>; the first-parent
  lineage of the head is \<open>f2, mg, f1, c0\<close>.
\<close>

theorem GetCommitAncestry_visits_second_parent:
  "GetCommitAncestry merge_repo context_Background 20
     = Inr [''f2'', ''mg'', ''m2'', ''m1'', ''f1'', ''c0'']
   \<and> first_parent (objects merge_repo) ''mg'' = Some ''f1''
   \<and> \<not> follows_first_parents (objects merge_repo) [''f2'', ''mg'', ''m2'', ''m1'', ''f1'', ''c0'']
   \<and> spec_first_parent_walk (objects merge_repo) 20 ''f2'' = [''f2'', ''mg'', ''f1'', ''c0'']"
  by code_simp

text \<open>
  C3: on the same repository with depth 10 the walk returns 6 commits, the number of
  commits reachable from the head, where the first-parent chain has 4.
\<close>

theorem GetCommitAncestry_length_counts_merged_commits:
  "GetCommitAncestry merge_repo context_Background 10
     = Inr [''f2'', ''mg'', ''m2'', ''m1'', ''f1'', ''c0'']
   \<and> length [''f2'', ''mg'', ''m2'', ''m1'', ''f1'', ''c0''] = 6
   \<and> length (spec_first_parent_walk (objects merge_repo) 10 ''f2'') = 4
   \<and> length (spec_first_parent_walk (objects merge_repo) 100 ''f2'') = 4
   \<and> min 10 (4::nat) \<noteq> 6"
  by code_simp

subsection \<open>Remote URLs\<close>

lemma split_at_Some_iff: "split_at c s = Some (a, b) \<longleftrightarrow> s = a @ c # b \<and> c \<notin> set a"
proof
  assume "split_at c s = Some (a, b)"
  then have in_s: "c \<in> set s" and a: "a = takeWhile (\<lambda>x. x \<noteq> c) s"
    and b: "b = tl (dropWhile (\<lambda>x. x \<noteq> c) s)"
    by (auto simp: split_at_def split: if_splits)
  from in_s have ne: "dropWhile (\<lambda>x. x \<noteq> c) s \<noteq> []" by simp
  then have "hd (dropWhile (\<lambda>x. x \<noteq> c) s) = c" using hd_dropWhile [OF ne] by simp
  with ne have "dropWhile (\<lambda>x. x \<noteq> c) s = c # b" unfolding b by (cases "dropWhile (\<lambda>x. x \<noteq> c) s") auto
  then have "s = a @ c # b" unfolding a using takeWhile_dropWhile_id [of "\<lambda>x. x \<noteq> c" s] by simp
  moreover have "c \<notin> set a" unfolding a by (auto dest: set_takeWhileD)
  ultimately show "s = a @ c # b \<and> c \<notin> set a" by simp
next
  assume h: "s = a @ c # b \<and> c \<notin> set a"
  then have na: "c \<notin> set a" by simp
  have "takeWhile (\<lambda>x. x \<noteq> c) (a @ c # b) = a"
    "dropWhile (\<lambda>x. x \<noteq> c) (a @ c # b) = c # b"
    using na by (induction a) auto
  with h have "takeWhile (\<lambda>x. x \<noteq> c) s = a" "dropWhile (\<lambda>x. x \<noteq> c) s = c # b"
    by simp_all
  with h show "split_at c s = Some (a, b)" by (simp add: split_at_def)
qed

lemma split_at_None_iff: "split_at c s = None \<longleftrightarrow> c \<notin> set s"
  by (simp add: split_at_def)

lemma HasPrefix_iff: "HasPrefix s pre \<longleftrightarrow> (\<exists>r. s = pre @ r)"
  unfolding HasPrefix_def
  by (metis append_eq_conv_conj append_take_drop_id)

lemma HasSuffix_iff: "HasSuffix s suf \<longleftrightarrow> (\<exists>x. s = x @ suf)"
proof
  assume "HasSuffix s suf"
  then have "s = take (length s - length suf) s @ suf"
    unfolding HasSuffix_def by (metis append_take_drop_id)
  then show "\<exists>x. s = x @ suf" ..
next
  assume "\<exists>x. s = x @ suf"
  then show "HasSuffix s suf" by (auto simp: HasSuffix_def)
qed

lemma strip_git_append: "x \<noteq> [] \<Longrightarrow> strip_git (x @ ''.git'') = x"
  by (cases x) (simp_all add: strip_git_def HasSuffix_def)

lemma strip_git_other: "\<not> (\<exists>x. x \<noteq> [] \<and> seg = x @ ''.git'') \<Longrightarrow> strip_git seg = seg"
proof -
  assume n: "\<not> (\<exists>x. x \<noteq> [] \<and> seg = x @ ''.git'')"
  have "\<not> (4 < length seg \<and> HasSuffix seg ''.git'')"
  proof
    assume a: "4 < length seg \<and> HasSuffix seg ''.git''"
    then obtain x where x: "seg = x @ ''.git''" unfolding HasSuffix_iff by blast
    with a have "x \<noteq> []" by auto
    with x n show False by blast
  qed
  then show ?thesis by (auto simp: strip_git_def)
qed

lemma name_of_segment_iff: "name_of_segment seg name \<longleftrightarrow> name = strip_git seg"
proof (cases "\<exists>x. x \<noteq> [] \<and> seg = x @ ''.git''")
  case True
  then obtain x where x: "x \<noteq> []" "seg = x @ ''.git''" by blast
  then have "strip_git seg = x" by (simp add: strip_git_append)
  with True x show ?thesis by (auto simp: name_of_segment_def)
next
  case False
  then show ?thesis using strip_git_other [OF False] by (auto simp: name_of_segment_def)
qed

lemma match_owner_name_iff:
  "match_owner_name s = Some (owner, name) \<longleftrightarrow>
     (\<exists>seg. s = owner @ ''/'' @ seg \<and> owner \<noteq> [] \<and> CHR ''/'' \<notin> set owner
        \<and> seg \<noteq> [] \<and> CHR ''/'' \<notin> set seg \<and> name = strip_git seg)"
proof (cases "split_at CHR ''/'' s")
  case None
  then have "CHR ''/'' \<notin> set s" by (simp add: split_at_None_iff)
  then have "\<not> (\<exists>seg. s = owner @ ''/'' @ seg)" by auto
  with None show ?thesis by (auto simp: match_owner_name_def)
next
  case (Some p)
  obtain a b where p: "p = (a, b)" by (cases p)
  with Some have s: "s = a @ CHR ''/'' # b" "CHR ''/'' \<notin> set a"
    by (simp_all add: split_at_Some_iff)
  show ?thesis
  proof
    assume "match_owner_name s = Some (owner, name)"
    with Some p s show "\<exists>seg. s = owner @ ''/'' @ seg \<and> owner \<noteq> [] \<and> CHR ''/'' \<notin> set owner
        \<and> seg \<noteq> [] \<and> CHR ''/'' \<notin> set seg \<and> name = strip_git seg"
      by (auto simp: match_owner_name_def split: if_splits)
  next
    assume "\<exists>seg. s = owner @ ''/'' @ seg \<and> owner \<noteq> [] \<and> CHR ''/'' \<notin> set owner
        \<and> seg \<noteq> [] \<and> CHR ''/'' \<notin> set seg \<and> name = strip_git seg"
    then obtain seg where g: "s = owner @ CHR ''/'' # seg" "owner \<noteq> []" "CHR ''/'' \<notin> set owner"
        "seg \<noteq> []" "CHR ''/'' \<notin> set seg" "name = strip_git seg" by auto
    then have "split_at CHR ''/'' s = Some (owner, seg)" by (simp add: split_at_Some_iff)
    with g show "match_owner_name s = Some (owner, name)" by (simp add: match_owner_name_def)
  qed
qed

lemma HasPrefix_split: "HasPrefix s pre \<Longrightarrow> s = pre @ drop (length pre) s"
  unfolding HasPrefix_def using append_take_drop_id [of "length pre" s] by simp

lemma git_prefix_excludes_http:
  "HasPrefix u ''git@'' \<Longrightarrow> \<not> HasPrefix u ''https://'' \<and> \<not> HasPrefix u ''http://''"
  unfolding HasPrefix_iff by auto

lemma scheme_rest_iff:
  "(if HasPrefix u ''https://'' then Some (drop 8 u)
    else if HasPrefix u ''http://'' then Some (drop 7 u) else None) = Some r
   \<longleftrightarrow> (u = ''https://'' @ r \<or> u = ''http://'' @ r)"
proof
  assume a: "(if HasPrefix u ''https://'' then Some (drop 8 u)
    else if HasPrefix u ''http://'' then Some (drop 7 u) else None) = Some r"
  show "u = ''https://'' @ r \<or> u = ''http://'' @ r"
  proof (cases "HasPrefix u ''https://''")
    case True
    with a have "r = drop 8 u" by simp
    moreover have "length ''https://'' = 8" by simp
    ultimately show ?thesis using HasPrefix_split [OF True] by metis
  next
    case False
    with a have p: "HasPrefix u ''http://''" and "r = drop 7 u" by (auto split: if_splits)
    moreover have "length ''http://'' = 7" by simp
    ultimately show ?thesis using HasPrefix_split [OF p] by metis
  qed
next
  assume "u = ''https://'' @ r \<or> u = ''http://'' @ r"
  then show "(if HasPrefix u ''https://'' then Some (drop 8 u)
    else if HasPrefix u ''http://'' then Some (drop 7 u) else None) = Some r"
    by (auto simp: HasPrefix_def)
qed

lemma httpsURLPattern_iff:
  "httpsURLPattern u = Some (owner, name) \<longleftrightarrow>
     (\<exists>seg. https_shape u owner seg \<and> name = strip_git seg)"
proof
  assume a: "httpsURLPattern u = Some (owner, name)"
  then obtain r where r: "(if HasPrefix u ''https://'' then Some (drop 8 u)
      else if HasPrefix u ''http://'' then Some (drop 7 u) else None) = Some r"
    by (auto simp: httpsURLPattern_def Let_def split: option.splits if_splits)
  with a obtain host r' where sp: "split_at CHR ''/'' r = Some (host, r')" and h: "host \<noteq> []"
    and m: "match_owner_name r' = Some (owner, name)"
    unfolding httpsURLPattern_def Let_def r
    by (auto split: option.splits if_splits)
  from sp have r': "r = host @ CHR ''/'' # r'" "CHR ''/'' \<notin> set host"
    by (simp_all add: split_at_Some_iff)
  from m obtain seg where g: "r' = owner @ ''/'' @ seg" "owner \<noteq> []" "CHR ''/'' \<notin> set owner"
        "seg \<noteq> []" "CHR ''/'' \<notin> set seg" "name = strip_git seg"
    unfolding match_owner_name_iff by blast
  from r have "u = ''https://'' @ r \<or> u = ''http://'' @ r" by (simp only: scheme_rest_iff)
  then have "https_shape u owner seg"
    unfolding https_shape_def using r' g h
    by (elim disjE) (rule exI [of _ "''https://''"], rule exI [of _ host], simp,
                     rule exI [of _ "''http://''"], rule exI [of _ host], simp)
  with g show "\<exists>seg. https_shape u owner seg \<and> name = strip_git seg" by blast
next
  assume "\<exists>seg. https_shape u owner seg \<and> name = strip_git seg"
  then obtain seg scheme host where
    sc: "scheme = ''http://'' \<or> scheme = ''https://''"
    and u: "u = scheme @ host @ ''/'' @ owner @ ''/'' @ seg"
    and g: "host \<noteq> []" "CHR ''/'' \<notin> set host" "owner \<noteq> []" "CHR ''/'' \<notin> set owner"
        "seg \<noteq> []" "CHR ''/'' \<notin> set seg" "name = strip_git seg"
    unfolding https_shape_def by blast
  let ?r = "host @ ''/'' @ owner @ ''/'' @ seg"
  from sc u have "u = ''https://'' @ ?r \<or> u = ''http://'' @ ?r" by auto
  then have r: "(if HasPrefix u ''https://'' then Some (drop 8 u)
      else if HasPrefix u ''http://'' then Some (drop 7 u) else None) = Some ?r"
    by (simp only: scheme_rest_iff)
  have sp: "split_at CHR ''/'' ?r = Some (host, owner @ ''/'' @ seg)"
    using g by (simp add: split_at_Some_iff)
  have m: "match_owner_name (owner @ ''/'' @ seg) = Some (owner, name)"
    unfolding match_owner_name_iff using g by blast
  show "httpsURLPattern u = Some (owner, name)"
    unfolding httpsURLPattern_def Let_def r using sp m g by simp
qed

lemma sshURLPattern_iff:
  "sshURLPattern u = Some (owner, name) \<longleftrightarrow>
     (\<exists>seg. ssh_shape u owner seg \<and> name = strip_git seg)"
proof
  assume a: "sshURLPattern u = Some (owner, name)"
  then have p: "HasPrefix u ''git@''" by (auto simp: sshURLPattern_def split: if_splits)
  moreover have "length ''git@'' = 4" by simp
  ultimately have u: "u = ''git@'' @ drop 4 u"
    using HasPrefix_split [of u "''git@''"] by metis
  from a p obtain host r' where sp: "split_at CHR '':'' (drop 4 u) = Some (host, r')"
    and h: "host \<noteq> []" and m: "match_owner_name r' = Some (owner, name)"
    unfolding sshURLPattern_def by (auto split: option.splits if_splits)
  from sp have r': "drop 4 u = host @ CHR '':'' # r'" "CHR '':'' \<notin> set host"
    by (simp_all add: split_at_Some_iff)
  from m obtain seg where g: "r' = owner @ ''/'' @ seg" "owner \<noteq> []" "CHR ''/'' \<notin> set owner"
        "seg \<noteq> []" "CHR ''/'' \<notin> set seg" "name = strip_git seg"
    unfolding match_owner_name_iff by blast
  have "u = ''git@'' @ host @ '':'' @ owner @ ''/'' @ seg"
    using u r' g by simp
  then have "ssh_shape u owner seg"
    unfolding ssh_shape_def using r' g h by blast
  with g show "\<exists>seg. ssh_shape u owner seg \<and> name = strip_git seg" by blast
next
  assume "\<exists>seg. ssh_shape u owner seg \<and> name = strip_git seg"
  then obtain seg host where
    u: "u = ''git@'' @ host @ '':'' @ owner @ ''/'' @ seg"
    and g: "host \<noteq> []" "CHR '':'' \<notin> set host" "owner \<noteq> []" "CHR ''/'' \<notin> set owner"
        "seg \<noteq> []" "CHR ''/'' \<notin> set seg" "name = strip_git seg"
    unfolding ssh_shape_def by blast
  have p: "HasPrefix u ''git@''" "drop 4 u = host @ '':'' @ owner @ ''/'' @ seg"
    using u by (simp_all add: HasPrefix_def)
  have sp: "split_at CHR '':'' (host @ '':'' @ owner @ ''/'' @ seg) = Some (host, owner @ ''/'' @ seg)"
    using g by (simp add: split_at_Some_iff)
  have m: "match_owner_name (owner @ ''/'' @ seg) = Some (owner, name)"
    unfolding match_owner_name_iff using g by blast
  show "sshURLPattern u = Some (owner, name)"
    unfolding sshURLPattern_def using p sp m g by simp
qed

lemma parseRepoFromURL_Inr_iff:
  "parseRepoFromURL url = Inr repo \<longleftrightarrow>
     (\<exists>owner seg. (https_shape (TrimSpace url) owner seg \<or> ssh_shape (TrimSpace url) owner seg)
        \<and> repo = owner @ ''/'' @ strip_git seg)"
proof
  assume a: "parseRepoFromURL url = Inr repo"
  show "\<exists>owner seg. (https_shape (TrimSpace url) owner seg \<or> ssh_shape (TrimSpace url) owner seg)
        \<and> repo = owner @ ''/'' @ strip_git seg"
  proof (cases "httpsURLPattern (TrimSpace url)")
    case (Some p)
    obtain owner name where p: "p = (owner, name)" by (cases p)
    with Some a have "repo = owner @ ''/'' @ name" by (simp add: parseRepoFromURL_def)
    moreover from Some p have "httpsURLPattern (TrimSpace url) = Some (owner, name)" by simp
    ultimately show ?thesis unfolding httpsURLPattern_iff by blast
  next
    case None
    with a obtain owner name where s: "sshURLPattern (TrimSpace url) = Some (owner, name)"
      and "repo = owner @ ''/'' @ name"
      by (auto simp: parseRepoFromURL_def Let_def split: option.splits)
    then show ?thesis unfolding sshURLPattern_iff by blast
  qed
next
  assume "\<exists>owner seg. (https_shape (TrimSpace url) owner seg \<or> ssh_shape (TrimSpace url) owner seg)
        \<and> repo = owner @ ''/'' @ strip_git seg"
  then obtain owner seg where
    sh: "https_shape (TrimSpace url) owner seg \<or> ssh_shape (TrimSpace url) owner seg"
    and repo: "repo = owner @ ''/'' @ strip_git seg" by blast
  from sh show "parseRepoFromURL url = Inr repo"
  proof
    assume "https_shape (TrimSpace url) owner seg"
    then have "httpsURLPattern (TrimSpace url) = Some (owner, strip_git seg)"
      unfolding httpsURLPattern_iff by blast
    with repo show ?thesis by (simp add: parseRepoFromURL_def)
  next
    assume s: "ssh_shape (TrimSpace url) owner seg"
    then have m: "sshURLPattern (TrimSpace url) = Some (owner, strip_git seg)"
      unfolding sshURLPattern_iff by blast
    from s have "HasPrefix (TrimSpace url) ''git@''"
      unfolding ssh_shape_def HasPrefix_iff by auto
    then have "httpsURLPattern (TrimSpace url) = None"
      using git_prefix_excludes_http [of "TrimSpace url"] by (simp add: httpsURLPattern_def)
    with m repo show ?thesis by (simp add: parseRepoFromURL_def)
  qed
qed


text \<open>
  \<open>TrimSpace\<close> returns a part of its argument that neither starts nor ends with a
  white-space rune.
\<close>

declare TrimLeftSpace.simps [simp del] TrimRightSpace.simps [simp del]

lemma leading_space_0_iff: "leading_space s = 0 \<longleftrightarrow> (\<forall>e \<in> set space_encodings. \<not> HasPrefix s e)"
proof -
  have ne: "\<forall>e \<in> set space_encodings. e \<noteq> []" by (simp add: space_encodings_def)
  show ?thesis
  proof (cases "filter (HasPrefix s) space_encodings")
    case Nil
    then show ?thesis by (simp add: leading_space_def filter_empty_conv)
  next
    case (Cons e es)
    then have "e \<in> set (filter (HasPrefix s) space_encodings)" by simp
    then have "e \<in> set space_encodings" "HasPrefix s e" by auto
    with ne Cons show ?thesis by (auto simp: leading_space_def)
  qed
qed

lemma trailing_space_0_iff: "trailing_space s = 0 \<longleftrightarrow> (\<forall>e \<in> set space_encodings. \<not> HasSuffix s e)"
proof -
  have ne: "\<forall>e \<in> set space_encodings. e \<noteq> []" by (simp add: space_encodings_def)
  show ?thesis
  proof (cases "filter (HasSuffix s) space_encodings")
    case Nil
    then show ?thesis by (simp add: trailing_space_def filter_empty_conv)
  next
    case (Cons e es)
    then have "e \<in> set (filter (HasSuffix s) space_encodings)" by simp
    then have "e \<in> set space_encodings" "HasSuffix s e" by auto
    with ne Cons show ?thesis by (auto simp: trailing_space_def)
  qed
qed

lemma TrimLeftSpace_no_leading: "leading_space (TrimLeftSpace s) = 0"
proof (induction s rule: TrimLeftSpace.induct)
  case (1 s)
  show ?case
  proof (cases "leading_space s = 0 \<or> s = []")
    case True
    then have "TrimLeftSpace s = s" by (subst TrimLeftSpace.simps) simp
    moreover have "leading_space [] = 0" by (simp add: leading_space_0_iff HasPrefix_def space_encodings_def)
    ultimately show ?thesis using True by auto
  next
    case False
    then have "TrimLeftSpace s = TrimLeftSpace (drop (leading_space s) s)"
      by (subst TrimLeftSpace.simps) simp
    with "1.IH" False show ?thesis by simp
  qed
qed

lemma TrimRightSpace_no_trailing: "trailing_space (TrimRightSpace s) = 0"
proof (induction s rule: TrimRightSpace.induct)
  case (1 s)
  show ?case
  proof (cases "trailing_space s = 0 \<or> s = []")
    case True
    then have "TrimRightSpace s = s" by (subst TrimRightSpace.simps) simp
    moreover have "trailing_space [] = 0" by (simp add: trailing_space_0_iff HasSuffix_def space_encodings_def)
    ultimately show ?thesis using True by auto
  next
    case False
    then have "TrimRightSpace s = TrimRightSpace (take (length s - trailing_space s) s)"
      by (subst TrimRightSpace.simps) simp
    with "1.IH" False show ?thesis by simp
  qed
qed

lemma TrimRightSpace_prefix: "\<exists>post. s = TrimRightSpace s @ post"
proof (induction s rule: TrimRightSpace.induct)
  case (1 s)
  show ?case
  proof (cases "trailing_space s = 0 \<or> s = []")
    case True
    then have "TrimRightSpace s = s" by (subst TrimRightSpace.simps) simp
    then show ?thesis by simp
  next
    case False
    then have e: "TrimRightSpace s = TrimRightSpace (take (length s - trailing_space s) s)"
      by (subst TrimRightSpace.simps) simp
    from "1.IH" False obtain post where
      "take (length s - trailing_space s) s = TrimRightSpace (take (length s - trailing_space s) s) @ post"
      by auto
    then have "s = TrimRightSpace s @ post @ drop (length s - trailing_space s) s"
      unfolding e using append_take_drop_id [of "length s - trailing_space s" s] by (metis append.assoc)
    then show ?thesis ..
  qed
qed

lemma TrimLeftSpace_suffix: "\<exists>pre. s = pre @ TrimLeftSpace s"
proof (induction s rule: TrimLeftSpace.induct)
  case (1 s)
  show ?case
  proof (cases "leading_space s = 0 \<or> s = []")
    case True
    then have "TrimLeftSpace s = s" by (subst TrimLeftSpace.simps) simp
    then show ?thesis by simp
  next
    case False
    then have e: "TrimLeftSpace s = TrimLeftSpace (drop (leading_space s) s)"
      by (subst TrimLeftSpace.simps) simp
    from "1.IH" False obtain pre where
      "drop (leading_space s) s = pre @ TrimLeftSpace (drop (leading_space s) s)"
      by auto
    then have "s = (take (leading_space s) s @ pre) @ TrimLeftSpace s"
      unfolding e using append_take_drop_id [of "leading_space s" s] by (metis append.assoc)
    then show ?thesis ..
  qed
qed

lemma TrimSpace_trimmed:
  "leading_space (TrimSpace s) = 0 \<and> trailing_space (TrimSpace s) = 0
   \<and> (\<exists>pre post. s = pre @ TrimSpace s @ post)"
proof (intro conjI)
  show "trailing_space (TrimSpace s) = 0"
    by (simp add: TrimSpace_def TrimRightSpace_no_trailing)
  obtain post where p: "TrimLeftSpace s = TrimSpace s @ post"
    using TrimRightSpace_prefix [of "TrimLeftSpace s"] by (auto simp: TrimSpace_def)
  obtain pre where "s = pre @ TrimLeftSpace s" using TrimLeftSpace_suffix [of s] by blast
  with p show "\<exists>pre post. s = pre @ TrimSpace s @ post" by metis
  show "leading_space (TrimSpace s) = 0"
    unfolding leading_space_0_iff
  proof (intro ballI notI)
    fix e assume e: "e \<in> set space_encodings" and h: "HasPrefix (TrimSpace s) e"
    from h have "take (length e) (TrimSpace s) = e" by (simp add: HasPrefix_def)
    then have "length (take (length e) (TrimSpace s)) = length e" by simp
    then have "length e \<le> length (TrimSpace s)" by (simp add: min_def split: if_splits)
    with h p have "HasPrefix (TrimLeftSpace s) e" by (simp add: HasPrefix_def)
    with e TrimLeftSpace_no_leading [of s] show False by (simp add: leading_space_0_iff)
  qed
qed


text \<open>
  C9, as stated, fails: the URL \<^verbatim>\<open>alice@github.com:owner/repo.git\<close> has the shape
  user@host:owner/name.git, and \<^verbatim>\<open>GetGitContext\<close> rejects it with an
  ErrInvalidRemoteURL, since \<^verbatim>\<open>sshURLPattern\<close> asks for the user \<^verbatim>\<open>git\<close>.
\<close>

theorem GetGitContext_other_ssh_user_rejected:
  "Remote_origin other_user_repo = Inr [''alice@github.com:owner/repo.git'']
   \<and> ''alice@github.com:owner/repo.git''
       = ''alice'' @ ''@'' @ ''github.com'' @ '':'' @ ''owner'' @ ''/'' @ ''repo'' @ ''.git''
   \<and> GetGitContext other_user_repo context_Background
       = Inl (GoErr ''could not parse repository name from remote URL: failed to parse URL: unrecognized URL format: alice@github.com:owner/repo.git''
                [ErrInvalidRemoteURL,
                 GoErr ''unrecognized URL format: alice@github.com:owner/repo.git'' []])"
  by code_simp

text \<open>
  C9, amended: with HEAD resolved and an origin URL configured, \<^verbatim>\<open>GetGitContext\<close>
  takes the first URL, trims it, and gives owner/name exactly when the trimmed URL
  is \<^verbatim>\<open>http://\<close> or \<^verbatim>\<open>https://\<close> host/owner/name[.git], or \<^verbatim>\<open>git@\<close>host:owner/name[.git];
  a URL of neither shape gives an ErrInvalidRemoteURL.
\<close>

theorem GetGitContext_repository_shapes:
  assumes "Head r = Inr head" and "Remote_origin r = Inr (url # urls)"
  shows "(\<forall>owner seg name.
            (https_shape (TrimSpace url) owner seg \<or> ssh_shape (TrimSpace url) owner seg)
            \<and> name_of_segment seg name
          \<longrightarrow> (\<exists>g. GetGitContext r ctx = Inr g \<and> Repository g = owner @ ''/'' @ name))
       \<and> ((\<forall>owner seg. \<not> https_shape (TrimSpace url) owner seg
                        \<and> \<not> ssh_shape (TrimSpace url) owner seg)
          \<longrightarrow> (\<exists>e. GetGitContext r ctx = Inl e \<and> errors_Is e ErrInvalidRemoteURL))"
proof (intro conjI allI impI)
  fix owner seg name
  assume "(https_shape (TrimSpace url) owner seg \<or> ssh_shape (TrimSpace url) owner seg)
            \<and> name_of_segment seg name"
  then have "parseRepoFromURL url = Inr (owner @ ''/'' @ name)"
    unfolding parseRepoFromURL_Inr_iff name_of_segment_iff by blast
  then show "\<exists>g. GetGitContext r ctx = Inr g \<and> Repository g = owner @ ''/'' @ name"
    using assms by (simp add: GetGitContext_def Let_def)
next
  assume n: "\<forall>owner seg. \<not> https_shape (TrimSpace url) owner seg
                        \<and> \<not> ssh_shape (TrimSpace url) owner seg"
  have "\<exists>err. parseRepoFromURL url = Inl err"
  proof (cases "parseRepoFromURL url")
    case (Inl err)
    then show ?thesis by simp
  next
    case (Inr repo)
    with n show ?thesis unfolding parseRepoFromURL_Inr_iff by blast
  qed
  then obtain err where "parseRepoFromURL url = Inl err" ..
  then show "\<exists>e. GetGitContext r ctx = Inl e \<and> errors_Is e ErrInvalidRemoteURL"
    using assms by (simp add: GetGitContext_def Let_def errors_Is_first del: errors_Is.simps)
qed



lemma trim_spaced_url:
  "TrimSpace ''  https://github.com/owner/repo.git  '' = ''https://github.com/owner/repo.git''"
  by code_simp

lemma other_user_no_match:
  "httpsURLPattern (TrimSpace ''alice@github.com:owner/repo.git'') = None"
  "sshURLPattern (TrimSpace ''alice@github.com:owner/repo.git'') = None"
  by code_simp+

lemma strip_git_repo: "strip_git ''repo.git'' = ''repo''"
  by code_simp

text \<open>
  Witness for C9 amended: the HTTPS URL with surrounding blanks gives owner/repo; the
  URL of another SSH user has neither shape and gives the error.
\<close>

theorem GetGitContext_repository_shapes_witness:
  "(\<exists>g. GetGitContext spaced_url_repo context_Background = Inr g \<and> Repository g = ''owner/repo'')
   \<and> (\<exists>e. GetGitContext other_user_repo context_Background = Inl e
          \<and> errors_Is e ErrInvalidRemoteURL)"
proof -
  have h1: "Head spaced_url_repo = Inr \<lparr>ref_Hash = ''f2'', ref_Name = ''refs/heads/main''\<rparr>"
    and u1: "Remote_origin spaced_url_repo = Inr (''  https://github.com/owner/repo.git  '' # [])"
    and h2: "Head other_user_repo = Inr \<lparr>ref_Hash = ''f2'', ref_Name = ''refs/heads/main''\<rparr>"
    and u2: "Remote_origin other_user_repo = Inr (''alice@github.com:owner/repo.git'' # [])"
    by (simp_all add: spaced_url_repo_def other_user_repo_def merge_repo_def)
  have "https_shape ''https://github.com/owner/repo.git'' ''owner'' ''repo.git''"
    unfolding https_shape_def
    by (rule exI [of _ "''https://''"], rule exI [of _ "''github.com''"]) simp
  then have s: "https_shape (TrimSpace ''  https://github.com/owner/repo.git  '') ''owner'' ''repo.git''"
    by (simp only: trim_spaced_url)
  have n: "name_of_segment ''repo.git'' ''repo''"
    by (simp only: name_of_segment_iff strip_git_repo)
  from GetGitContext_repository_shapes [OF h1 u1, of context_Background]
  have "(https_shape (TrimSpace ''  https://github.com/owner/repo.git  '') ''owner'' ''repo.git''
          \<or> ssh_shape (TrimSpace ''  https://github.com/owner/repo.git  '') ''owner'' ''repo.git'')
        \<and> name_of_segment ''repo.git'' ''repo''
        \<longrightarrow> (\<exists>g. GetGitContext spaced_url_repo context_Background = Inr g
                \<and> Repository g = ''owner'' @ ''/'' @ ''repo'')"
    by blast
  with s n have a: "\<exists>g. GetGitContext spaced_url_repo context_Background = Inr g
             \<and> Repository g = ''owner/repo''"
    by simp
  have no: "\<forall>owner seg. \<not> https_shape (TrimSpace ''alice@github.com:owner/repo.git'') owner seg
                        \<and> \<not> ssh_shape (TrimSpace ''alice@github.com:owner/repo.git'') owner seg"
  proof (intro allI conjI notI)
    fix owner seg
    assume "https_shape (TrimSpace ''alice@github.com:owner/repo.git'') owner seg"
    then have "httpsURLPattern (TrimSpace ''alice@github.com:owner/repo.git'')
                 = Some (owner, strip_git seg)"
      unfolding httpsURLPattern_iff by blast
    then show False by (simp only: other_user_no_match option.distinct)
  next
    fix owner seg
    assume "ssh_shape (TrimSpace ''alice@github.com:owner/repo.git'') owner seg"
    then have "sshURLPattern (TrimSpace ''alice@github.com:owner/repo.git'')
                 = Some (owner, strip_git seg)"
      unfolding sshURLPattern_iff by blast
    then show False by (simp only: other_user_no_match option.distinct)
  qed
  from GetGitContext_repository_shapes [OF h2 u2, of context_Background] no
  have b: "\<exists>e. GetGitContext other_user_repo context_Background = Inl e
             \<and> errors_Is e ErrInvalidRemoteURL"
    by blast
  from a b show ?thesis ..
qed


end
